theory Spec2Isabelle
  imports Main "HOL-Library.AList"
begin

section \<open>Text documents\<close>

text \<open>
  The formatter works on \<^verbatim>\<open>TextDocument\<close> values of the language-server text
  document library. A document is an immutable snapshot; positions are (line, character)
  pairs and offsets count the code units of the content. A character of the content is a
  \<^typ>\<open>char\<close> here.
\<close>

record Position =
  line :: nat
  character :: nat

record Range =
  start :: Position
  endp :: Position

record TextEdit =
  edit_range :: Range
  newText :: string

record TextDocument =
  uri :: string
  languageId :: string
  version :: int
  content :: string

definition LF :: char where
  "LF = CHR 0x0A"

definition CR :: char where
  "CR = CHR 0x0D"

text \<open>\<^verbatim>\<open>String.prototype.substring(a, b)\<close>: both indices are clamped to the length and
  swapped when \<open>a > b\<close>.\<close>

definition substring :: "string \<Rightarrow> nat \<Rightarrow> nat \<Rightarrow> string" where
  "substring s a b =
     (let a' = min a (length s); b' = min b (length s);
          lo = min a' b'; hi = max a' b'
      in take (hi - lo) (drop lo s))"

text \<open>\<^verbatim>\<open>s.indexOf('\n') === -1\<close>.\<close>

definition hasNoLineFeed :: "string \<Rightarrow> bool" where
  "hasNoLineFeed s = (LF \<notin> set s)"

definition startsWithLF :: "string \<Rightarrow> bool" where
  "startsWithLF s = (case s of [] \<Rightarrow> False | c # _ \<Rightarrow> c = LF)"

definition endsWithLF :: "string \<Rightarrow> bool" where
  "endsWithLF s = (case rev s of [] \<Rightarrow> False | c # _ \<Rightarrow> c = LF)"

text \<open>\<^verbatim>\<open>s.split('\n')\<close>: always at least one piece.\<close>

fun split_lf :: "string \<Rightarrow> string list" where
  "split_lf [] = [[]]"
| "split_lf (c # cs) =
     (if c = LF then [] # split_lf cs
      else (case split_lf cs of [] \<Rightarrow> [[c]] | l # ls \<Rightarrow> (c # l) # ls))"

text \<open>\<^verbatim>\<open>lines.join('\n')\<close>.\<close>

fun join_lf :: "string list \<Rightarrow> string" where
  "join_lf [] = []"
| "join_lf [l] = l"
| "join_lf (l # ls) = l @ LF # join_lf ls"

text \<open>The characters removed by \<^verbatim>\<open>trimStart\<close> (white space and line terminators)
  that fit a \<^typ>\<open>char\<close>: tab, line feed, vertical tab, form feed, carriage return, space
  and no-break space.\<close>

definition isWhiteSpace :: "char \<Rightarrow> bool" where
  "isWhiteSpace c = (c \<in> set [CHR 0x09, CHR 0x0A, CHR 0x0B, CHR 0x0C, CHR 0x0D, CHR 0x20, CHR 0xA0])"

definition trimStart :: "string \<Rightarrow> string" where
  "trimStart s = dropWhile isWhiteSpace s"

text \<open>The line table of the library: offset 0 starts a line, and a line starts after each
  \<open>\n\<close>, \<open>\r\n\<close> or lone \<open>\r\<close>.\<close>

fun computeLineOffsets :: "string \<Rightarrow> nat \<Rightarrow> nat list" where
  "computeLineOffsets [] i = []"
| "computeLineOffsets [c] i = (if c = CR \<or> c = LF then [i + 1] else [])"
| "computeLineOffsets (c # d # ds) i =
     (if c = CR \<and> d = LF then (i + 2) # computeLineOffsets ds (i + 2)
      else if c = CR \<or> c = LF then (i + 1) # computeLineOffsets (d # ds) (i + 1)
      else computeLineOffsets (d # ds) (i + 1))"

definition getLineOffsets :: "TextDocument \<Rightarrow> nat list" where
  "getLineOffsets doc = 0 # computeLineOffsets (content doc) 0"

text \<open>\<^verbatim>\<open>positionAt\<close>: the offset is clamped to the content; the line is the last one
  whose start is not after the offset (the library finds it by binary search in the
  increasing line table).\<close>

definition positionAt :: "TextDocument \<Rightarrow> nat \<Rightarrow> Position" where
  "positionAt doc offset =
     (let off = min offset (length (content doc));
          lineOffsets = getLineOffsets doc;
          low = length (takeWhile (\<lambda>lo. lo \<le> off) lineOffsets);
          ln = low - 1
      in \<lparr>line = ln, character = off - lineOffsets ! ln\<rparr>)"

text \<open>\<^verbatim>\<open>offsetAt\<close>: a line past the end gives the content length; the character is
  clamped to the line.\<close>

definition offsetAt :: "TextDocument \<Rightarrow> Position \<Rightarrow> nat" where
  "offsetAt doc p =
     (let lineOffsets = getLineOffsets doc in
      if line p \<ge> length lineOffsets then length (content doc)
      else
        (let lineOffset = lineOffsets ! line p;
             nextLineOffset = (if line p + 1 < length lineOffsets
                               then lineOffsets ! (line p + 1) else length (content doc))
         in max (min (lineOffset + character p) nextLineOffset) lineOffset))"

text \<open>\<^verbatim>\<open>getText(range)\<close>.\<close>

definition getTextRange :: "TextDocument \<Rightarrow> Range \<Rightarrow> string" where
  "getTextRange doc r = substring (content doc) (offsetAt doc (start r)) (offsetAt doc (endp r))"

section \<open>Embedded files and mappings\<close>

record Mapping =
  sourceRange :: "nat \<times> nat"
  generatedRange :: "nat \<times> nat"

text \<open>The \<^verbatim>\<open>documentFormatting\<close> capability of a virtual file: absent or false,
  \<^verbatim>\<open>true\<close>, or an object with the two newline flags (an omitted flag is falsy).\<close>

datatype DocumentFormatting =
  FormattingOff
  | FormattingOn
  | FormattingWith (insertFirstNewline: bool) (insertFinalNewline: bool)

datatype VirtualFile =
  VirtualFile (fileName: string) (documentFormatting: DocumentFormatting)
    (embeddedFiles: "VirtualFile list")

section \<open>Indentation reflow: \<^verbatim>\<open>patchInterpolationIndent\<close>\<close>

text \<open>\<^verbatim>\<open>getBaseIndent(pos)\<close>: the leading white space of the text between the start of
  the line holding \<open>pos\<close> and \<open>pos\<close>.\<close>

definition getBaseIndent :: "TextDocument \<Rightarrow> nat \<Rightarrow> string" where
  "getBaseIndent document pos =
     (let startPos = positionAt document pos;
          startLineText = getTextRange document
            \<lparr>start = \<lparr>line = line startPos, character = 0\<rparr>, endp = startPos\<rparr>
      in substring startLineText 0 (length startLineText - length (trimStart startLineText)))"

text \<open>The inner loop \<^verbatim>\<open>for (let i = 1; i < lines.length - 1; i++)\<close>, started at index
  \<open>i\<close>.\<close>

function indentInterior :: "string \<Rightarrow> string \<Rightarrow> string list \<Rightarrow> nat \<Rightarrow> string list" where
  "indentInterior firstLineIndent initialIndent lines i =
     (if i + 1 < length lines
      then indentInterior firstLineIndent initialIndent
             (if lines ! i \<noteq> [] then lines[i := firstLineIndent @ initialIndent @ lines ! i]
              else lines)
             (i + 1)
      else lines)"
  by pat_completeness auto
termination
  by (relation "measure (\<lambda>(f, n, lines, i). length lines - i)") auto

declare indentInterior.simps [simp del]

text \<open>The body of the loop over the mappings for the mapping at index \<open>i\<close> of \<open>n\<close>:
  the edit it pushes, if any.\<close>

definition patchMapping ::
  "TextDocument \<Rightarrow> string \<Rightarrow> bool \<Rightarrow> bool \<Rightarrow> nat \<Rightarrow> nat \<Rightarrow> Mapping \<Rightarrow> TextEdit option" where
  "patchMapping document initialIndent insFirst insFinal n i mapping =
     (let firstLineIndent = getBaseIndent document (fst (sourceRange mapping));
          oldText = substring (content document) (fst (sourceRange mapping)) (snd (sourceRange mapping))
      in if hasNoLineFeed oldText then None
         else
           (let newText1 = (if insFirst \<and> i = 0 \<and> \<not> startsWithLF oldText
                            then LF # oldText else oldText);
                newText2 = (if insFinal \<and> i + 1 = n \<and> \<not> endsWithLF newText1
                            then newText1 @ [LF] else newText1);
                lines = split_lf newText2;
                lines1 = indentInterior firstLineIndent initialIndent lines 1;
                lines2 = lines1[length lines1 - 1 := firstLineIndent @ lines1 ! (length lines1 - 1)];
                newText3 = join_lf lines2
            in if newText3 \<noteq> oldText
               then Some \<lparr>edit_range = \<lparr>start = positionAt document (fst (sourceRange mapping)),
                                        endp = positionAt document (snd (sourceRange mapping))\<rparr>,
                          newText = newText3\<rparr>
               else None))"

text \<open>The loop \<^verbatim>\<open>for (let i = 0; i < map.mappings.length; i++)\<close> from index \<open>i\<close>, with
  the edits pushed so far.\<close>

function patchLoop ::
  "TextDocument \<Rightarrow> Mapping list \<Rightarrow> string \<Rightarrow> bool \<Rightarrow> bool \<Rightarrow> nat \<Rightarrow> TextEdit list \<Rightarrow> TextEdit list" where
  "patchLoop document mappings initialIndent insFirst insFinal i indentTextEdits =
     (if i < length mappings
      then patchLoop document mappings initialIndent insFirst insFinal (i + 1)
             (case patchMapping document initialIndent insFirst insFinal (length mappings) i
                     (mappings ! i) of
                None \<Rightarrow> indentTextEdits
              | Some e \<Rightarrow> indentTextEdits @ [e])
      else indentTextEdits)"
  by pat_completeness auto
termination
  by (relation "measure (\<lambda>(d, ms, ii, f, l, i, acc). length ms - i)") auto

declare patchLoop.simps [simp del]

text \<open>\<^verbatim>\<open>typeof data === 'object' ? data.insertFirstNewline : false\<close>, and the same for
  the final newline.\<close>

definition wantsFirstNewline :: "DocumentFormatting \<Rightarrow> bool" where
  "wantsFirstNewline data = (case data of FormattingWith a b \<Rightarrow> a | _ \<Rightarrow> False)"

definition wantsFinalNewline :: "DocumentFormatting \<Rightarrow> bool" where
  "wantsFinalNewline data = (case data of FormattingWith a b \<Rightarrow> b | _ \<Rightarrow> False)"

definition patchInterpolationIndent ::
  "TextDocument \<Rightarrow> Mapping list \<Rightarrow> string \<Rightarrow> DocumentFormatting \<Rightarrow> TextEdit list" where
  "patchInterpolationIndent document mappings initialIndent data =
     patchLoop document mappings initialIndent (wantsFirstNewline data) (wantsFinalNewline data) 0 []"

subsection \<open>The reflow as the specification words it\<close>

text \<open>Every interior, non-empty line is prefixed with \<open>baseIndent + nestedIndent\<close>; the
  final line is prefixed with \<open>baseIndent\<close> alone; the first line is left as it is.\<close>

definition reflowLines_spec :: "string \<Rightarrow> string \<Rightarrow> string list \<Rightarrow> string list" where
  "reflowLines_spec baseIndent nestedIndent ls =
     (case ls of
        [] \<Rightarrow> []
      | [l] \<Rightarrow> [baseIndent @ l]
      | l # rest \<Rightarrow>
          l # map (\<lambda>x. if x = [] then x else baseIndent @ nestedIndent @ x) (butlast rest)
            @ [baseIndent @ last rest])"

text \<open>The outer-document line containing an offset, by the document's own conversions:
  the text from the start of the offset's line to the start of the next line.\<close>

definition lineTextAt_spec :: "TextDocument \<Rightarrow> nat \<Rightarrow> string" where
  "lineTextAt_spec document off =
     getTextRange document
       \<lparr>start = \<lparr>line = line (positionAt document off), character = 0\<rparr>,
        endp = \<lparr>line = line (positionAt document off) + 1, character = 0\<rparr>\<rparr>"

text \<open>The base indent as the specification states it: the leading white space of the
  outer-document line containing the mapping's start offset.\<close>

definition lineIndent_spec :: "TextDocument \<Rightarrow> nat \<Rightarrow> string" where
  "lineIndent_spec document off = takeWhile isWhiteSpace (lineTextAt_spec document off)"

text \<open>The base indent of the amended claim: the leading white space of the part of that
  line that lies before the offset.\<close>

definition indentBeforeStart_spec :: "TextDocument \<Rightarrow> nat \<Rightarrow> string" where
  "indentBeforeStart_spec document off =
     takeWhile isWhiteSpace
       (take (character (positionAt document off)) (lineTextAt_spec document off))"

text \<open>One mapping, for a given base indent: skipped when its text holds no line break;
  otherwise a newline is put in front unless the text starts with one, and behind unless
  it ends with one, where wanted; the lines are reflowed, and a replace edit over the
  mapping's source range is emitted when the text changed.\<close>

definition reflowMappingWith_spec ::
  "TextDocument \<Rightarrow> string \<Rightarrow> string \<Rightarrow> bool \<Rightarrow> bool \<Rightarrow> Mapping \<Rightarrow> TextEdit option" where
  "reflowMappingWith_spec document baseIndent nestedIndent firstNewline finalNewline mapping =
     (let s = fst (sourceRange mapping); e = snd (sourceRange mapping);
          oldText = substring (content document) s e
      in if LF \<notin> set oldText then None
         else
           (let t1 = (if firstNewline \<and> \<not> (oldText \<noteq> [] \<and> hd oldText = LF)
                      then LF # oldText else oldText);
                t2 = (if finalNewline \<and> \<not> (t1 \<noteq> [] \<and> last t1 = LF) then t1 @ [LF] else t1);
                patched = join_lf (reflowLines_spec baseIndent nestedIndent (split_lf t2))
            in if patched = oldText then None
               else Some \<lparr>edit_range = \<lparr>start = positionAt document s, endp = positionAt document e\<rparr>,
                          newText = patched\<rparr>))"

text \<open>The capability asks for a first newline, or for a final one, when it is an object
  with that flag set.\<close>

definition firstNewlineWanted_spec :: "DocumentFormatting \<Rightarrow> bool" where
  "firstNewlineWanted_spec data =
     (data = FormattingWith True True \<or> data = FormattingWith True False)"

definition finalNewlineWanted_spec :: "DocumentFormatting \<Rightarrow> bool" where
  "finalNewlineWanted_spec data =
     (data = FormattingWith True True \<or> data = FormattingWith False True)"

text \<open>Per mapping, in mapping-set order, for a given way to read the base indent of a
  start offset; the first newline belongs to the first mapping and the final newline to
  the last one.\<close>

definition indentationReflowWith_spec ::
  "(TextDocument \<Rightarrow> nat \<Rightarrow> string) \<Rightarrow> TextDocument \<Rightarrow> Mapping list \<Rightarrow> string \<Rightarrow>
   DocumentFormatting \<Rightarrow> TextEdit list" where
  "indentationReflowWith_spec baseIndentAt document mappings nestedIndent data =
     List.map_filter
       (\<lambda>i. reflowMappingWith_spec document
               (baseIndentAt document (fst (sourceRange (mappings ! i)))) nestedIndent
               (firstNewlineWanted_spec data \<and> i = 0)
               (finalNewlineWanted_spec data \<and> i + 1 = length mappings)
               (mappings ! i))
       [0..<length mappings]"

text \<open>The reflow with the base indent of the specification's words, and with the one of
  the amended claim.\<close>

definition indentationReflowAsStated_spec ::
  "TextDocument \<Rightarrow> Mapping list \<Rightarrow> string \<Rightarrow> DocumentFormatting \<Rightarrow> TextEdit list" where
  "indentationReflowAsStated_spec = indentationReflowWith_spec lineIndent_spec"

definition indentationReflow_spec ::
  "TextDocument \<Rightarrow> Mapping list \<Rightarrow> string \<Rightarrow> DocumentFormatting \<Rightarrow> TextEdit list" where
  "indentationReflow_spec = indentationReflowWith_spec indentBeforeStart_spec"

subsection \<open>The example of the specification\<close>

definition reflowExampleText :: string where
  "reflowExampleText = ''function f() {'' @ [LF] @ ''  return 1;'' @ [LF] @ ''}''"

definition reflowExampleDocument :: TextDocument where
  "reflowExampleDocument =
     \<lparr>uri = ''file:///a.vue'', languageId = ''vue'', version = 1,
      content = ''  '' @ reflowExampleText\<rparr>"

definition reflowExampleMapping :: Mapping where
  "reflowExampleMapping = \<lparr>sourceRange = (2, 30), generatedRange = (0, 28)\<rparr>"

text \<open>A mapping that starts inside the indentation of its line: \<open>"  a\nb"\<close> at offset 2
  of \<open>"    a\nb"\<close>.\<close>

definition indentExampleDocument :: TextDocument where
  "indentExampleDocument =
     \<lparr>uri = ''file:///a.vue'', languageId = ''vue'', version = 1,
      content = ''    a'' @ [LF] @ ''b''\<rparr>"

definition indentExampleMapping :: Mapping where
  "indentExampleMapping = \<lparr>sourceRange = (2, 7), generatedRange = (0, 5)\<rparr>"

subsection \<open>Properties of the reflow\<close>

lemma split_lf_not_Nil: "split_lf s \<noteq> []"
  by (induction s) (auto split: list.splits)

lemma length_split_lf: "length (split_lf s) = Suc (length (filter (\<lambda>c. c = LF) s))"
  by (induction s) (auto split: list.splits simp: split_lf_not_Nil)

lemma join_split_lf: "join_lf (split_lf s) = s"
proof (induction s)
  case Nil
  then show ?case by simp
next
  case (Cons c cs)
  obtain l ls where sp: "split_lf cs = l # ls"
    using split_lf_not_Nil [of cs] by (cases "split_lf cs") auto
  show ?case
  proof (cases "c = LF")
    case True
    then show ?thesis using Cons sp by simp
  next
    case False
    then show ?thesis using Cons sp by (cases ls) auto
  qed
qed

lemma length_indentInterior: "length (indentInterior f n ls i) = length ls"
  by (induction f n ls i rule: indentInterior.induct)
     (subst indentInterior.simps, auto)

lemma nth_indentInterior:
  "j < length ls \<Longrightarrow>
   indentInterior f n ls i ! j =
     (if i \<le> j \<and> j + 1 < length ls \<and> ls ! j \<noteq> [] then f @ n @ ls ! j else ls ! j)"
proof (induction f n ls i rule: indentInterior.induct)
  case (1 f n ls i)
  show ?case
  proof (cases "i + 1 < length ls")
    case False
    then show ?thesis by (subst indentInterior.simps) auto
  next
    case True
    let ?ls' = "if ls ! i \<noteq> [] then ls[i := f @ n @ ls ! i] else ls"
    have len: "length ?ls' = length ls" by simp
    have step: "indentInterior f n ls i = indentInterior f n ?ls' (i + 1)"
      using True by (subst indentInterior.simps) simp
    have ih: "indentInterior f n ?ls' (i + 1) ! j =
       (if i + 1 \<le> j \<and> j + 1 < length ?ls' \<and> ?ls' ! j \<noteq> [] then f @ n @ ?ls' ! j else ?ls' ! j)"
      using "1.IH" [OF True] "1.prems" len by simp
    show ?thesis
      unfolding step ih using True "1.prems"
      by (auto simp: nth_list_update)
  qed
qed

lemma patchLoop_eq:
  "patchLoop d ms ii a b i acc =
     acc @ List.map_filter (\<lambda>j. patchMapping d ii a b (length ms) j (ms ! j)) [i..<length ms]"
proof (induction d ms ii a b i acc rule: patchLoop.induct)
  case (1 d ms ii a b i acc)
  show ?case
  proof (cases "i < length ms")
    case False
    then show ?thesis by (subst patchLoop.simps) (simp add: List.map_filter_simps)
  next
    case True
    have step: "patchLoop d ms ii a b i acc =
        patchLoop d ms ii a b (i + 1)
          (case patchMapping d ii a b (length ms) i (ms ! i) of None \<Rightarrow> acc | Some e \<Rightarrow> acc @ [e])"
      using True by (subst patchLoop.simps) simp
    show ?thesis
      unfolding step "1.IH" [OF True] using True
      by (simp add: upt_conv_Cons List.map_filter_simps split: option.splits)
  qed
qed


lemma indentInterior_spec:
  assumes "ls \<noteq> []"
  shows "(indentInterior f n ls 1)[length (indentInterior f n ls 1) - 1 :=
            f @ indentInterior f n ls 1 ! (length (indentInterior f n ls 1) - 1)]
         = reflowLines_spec f n ls"
proof (cases ls)
  case Nil
  with assms show ?thesis by simp
next
  case (Cons l rest)
  show ?thesis
  proof (cases rest)
    case Nil
    then show ?thesis using Cons
      by (simp add: reflowLines_spec_def indentInterior.simps [of f n "[l]"])
  next
    case (Cons r rs)
    let ?g = "\<lambda>x. if x = [] then x else f @ n @ x"
    have spec: "reflowLines_spec f n ls = l # map ?g (butlast rest) @ [f @ last rest]"
      using Cons \<open>ls = l # rest\<close> by (simp add: reflowLines_spec_def)
    have len: "length ls = Suc (length rest)" using \<open>ls = l # rest\<close> by simp
    have rest_ne: "rest \<noteq> []" using Cons by simp
    show ?thesis
      unfolding spec length_indentInterior
    proof (rule nth_equalityI)
      show "length ((indentInterior f n ls 1)[length ls - 1 := f @ indentInterior f n ls 1 ! (length ls - 1)])
            = length (l # map ?g (butlast rest) @ [f @ last rest])"
        using len rest_ne by (simp add: length_indentInterior)
    next
      fix j
      assume "j < length ((indentInterior f n ls 1)[length ls - 1 := f @ indentInterior f n ls 1 ! (length ls - 1)])"
      then have j: "j < length ls" by (simp add: length_indentInterior)
      consider "j = 0" | "0 < j" "j + 1 < length ls" | "j + 1 = length ls" "0 < j"
        using j len rest_ne by (cases rest) (auto, linarith)
      then show "(indentInterior f n ls 1)[length ls - 1 := f @ indentInterior f n ls 1 ! (length ls - 1)] ! j
                 = (l # map ?g (butlast rest) @ [f @ last rest]) ! j"
      proof cases
        case 1
        then show ?thesis
          using j len rest_ne \<open>ls = l # rest\<close>
          by (simp add: nth_list_update length_indentInterior nth_indentInterior)
      next
        case 2
        then obtain k where k: "j = Suc k" by (cases j) auto
        have kb: "k < length (butlast rest)" using 2 k len by simp
        have "butlast rest ! k = rest ! k" using kb by (simp add: nth_butlast)
        then show ?thesis
          using 2 j k kb len \<open>ls = l # rest\<close>
          by (simp add: nth_list_update length_indentInterior nth_indentInterior nth_append)
      next
        case 3
        then obtain k where k: "j = Suc k" by (cases j) auto
        have kl: "k = length (butlast rest)" using 3 k len by simp
        have "length rest - Suc 0 = k" using 3 k len by simp
        then have "last rest = rest ! k" using rest_ne by (simp add: last_conv_nth)
        then show ?thesis
          using 3 j k kl len \<open>ls = l # rest\<close>
          by (simp add: nth_list_update length_indentInterior nth_indentInterior nth_append)
      qed
    qed
  qed
qed

lemma startsWithLF_iff: "startsWithLF t \<longleftrightarrow> t \<noteq> [] \<and> hd t = LF"
  by (cases t) (simp_all add: startsWithLF_def)

lemma endsWithLF_iff: "endsWithLF t \<longleftrightarrow> t \<noteq> [] \<and> last t = LF"
  by (cases t rule: rev_cases) (simp_all add: endsWithLF_def)

lemma patchMapping_spec:
  "patchMapping document nestedIndent insFirst insFinal n i mapping =
   reflowMappingWith_spec document (getBaseIndent document (fst (sourceRange mapping))) nestedIndent
     (insFirst \<and> i = 0) (insFinal \<and> i + 1 = n) mapping"
  unfolding patchMapping_def reflowMappingWith_spec_def Let_def hasNoLineFeed_def
    indentInterior_spec [OF split_lf_not_Nil] startsWithLF_iff endsWithLF_iff
  by (cases insFirst; cases insFinal; cases "i = 0"; cases "i + 1 = n") auto

lemma wantsFirstNewline_spec: "wantsFirstNewline data = firstNewlineWanted_spec data"
  by (cases data) (auto simp: wantsFirstNewline_def firstNewlineWanted_spec_def)

lemma wantsFinalNewline_spec: "wantsFinalNewline data = finalNewlineWanted_spec data"
  by (cases data) (auto simp: wantsFinalNewline_def finalNewlineWanted_spec_def)

lemma offsetAt_positionAt: "offsetAt doc (positionAt doc n) = min n (length (content doc))"
proof -
  define off where "off = min n (length (content doc))"
  define L where "L = getLineOffsets doc"
  define low where "low = length (takeWhile (\<lambda>lo. lo \<le> off) L)"
  have L0: "L = 0 # computeLineOffsets (content doc) 0" by (simp add: L_def getLineOffsets_def)
  have low_pos: "0 < low" unfolding low_def L0 by simp
  have low_le: "low \<le> length L" unfolding low_def by (rule length_takeWhile_le)
  have ln_lt: "low - 1 < length L" using low_pos low_le by simp
  have "low - 1 < length (takeWhile (\<lambda>lo. lo \<le> off) L)" using low_pos by (simp add: low_def)
  then have "takeWhile (\<lambda>lo. lo \<le> off) L ! (low - 1) \<in> set (takeWhile (\<lambda>lo. lo \<le> off) L)"
    by (rule nth_mem)
  moreover have "takeWhile (\<lambda>lo. lo \<le> off) L ! (low - 1) = L ! (low - 1)"
    using low_pos by (simp add: takeWhile_nth low_def)
  ultimately have le: "L ! (low - 1) \<le> off" by (auto dest: set_takeWhileD)
  have nxt: "off < L ! low" if "low < length L"
    using nth_length_takeWhile [of "\<lambda>lo. lo \<le> off" L] that by (simp add: low_def)
  have pos: "positionAt doc n = \<lparr>line = low - 1, character = off - L ! (low - 1)\<rparr>"
    by (simp add: positionAt_def Let_def off_def L_def low_def)
  have off_le: "off \<le> length (content doc)" by (simp add: off_def)
  have "offsetAt doc \<lparr>line = low - 1, character = off - L ! (low - 1)\<rparr> = off"
  proof (cases "low < length L")
    case True
    then show ?thesis
      using ln_lt le nxt low_pos
      by (simp add: offsetAt_def Let_def L_def [symmetric])
  next
    case False
    then show ?thesis
      using ln_lt le off_le low_pos
      by (simp add: offsetAt_def Let_def L_def [symmetric])
  qed
  then show ?thesis by (simp add: pos off_def)
qed

text \<open>Where \<^verbatim>\<open>positionAt\<close> puts an offset: on a line of the table that starts at or
  before it, with the next line, if any, starting after it.\<close>

lemma positionAt_line:
  fixes doc :: TextDocument and n :: nat
  defines "off \<equiv> min n (length (content doc))"
    and "L \<equiv> getLineOffsets doc"
    and "p \<equiv> positionAt doc n"
  shows "line p < length L" and "L ! line p \<le> off" and "character p = off - L ! line p"
    and "line p + 1 < length L \<Longrightarrow> off < L ! (line p + 1)"
proof -
  define low where "low = length (takeWhile (\<lambda>lo. lo \<le> off) L)"
  have L0: "L = 0 # computeLineOffsets (content doc) 0" by (simp add: L_def getLineOffsets_def)
  have low_pos: "0 < low" unfolding low_def L0 by simp
  have low_le: "low \<le> length L" unfolding low_def by (rule length_takeWhile_le)
  have pos: "p = \<lparr>line = low - 1, character = off - L ! (low - 1)\<rparr>"
    by (simp add: p_def positionAt_def Let_def off_def L_def low_def)
  show "line p < length L" using low_pos low_le by (simp add: pos)
  have "low - 1 < length (takeWhile (\<lambda>lo. lo \<le> off) L)" using low_pos by (simp add: low_def)
  then have "takeWhile (\<lambda>lo. lo \<le> off) L ! (low - 1) \<in> set (takeWhile (\<lambda>lo. lo \<le> off) L)"
    by (rule nth_mem)
  moreover have "takeWhile (\<lambda>lo. lo \<le> off) L ! (low - 1) = L ! (low - 1)"
    using low_pos by (simp add: takeWhile_nth low_def)
  ultimately have "L ! (low - 1) \<le> off" by (auto dest: set_takeWhileD)
  then show "L ! line p \<le> off" by (simp add: pos)
  show "character p = off - L ! line p" by (simp add: pos)
  show "off < L ! (line p + 1)" if "line p + 1 < length L"
  proof -
    have "low < length L" using that low_pos by (simp add: pos)
    then have "\<not> L ! low \<le> off"
      using nth_length_takeWhile [of "\<lambda>lo. lo \<le> off" L] by (simp add: low_def)
    then show ?thesis using low_pos by (simp add: pos)
  qed
qed

lemma offsetAt_line_start:
  "ln < length (getLineOffsets doc) \<Longrightarrow>
   offsetAt doc \<lparr>line = ln, character = 0\<rparr> = getLineOffsets doc ! ln"
  by (simp add: offsetAt_def Let_def)

lemma takeWhile_by_lengths:
  "take (length xs - length (dropWhile P xs)) xs = takeWhile P xs"
proof -
  have "length (takeWhile P xs @ dropWhile P xs) = length xs" by simp
  then have "length xs - length (dropWhile P xs) = length (takeWhile P xs)"
    by (simp del: takeWhile_dropWhile_id)
  then show ?thesis by (simp add: takeWhile_eq_take [symmetric])
qed

lemma leading_by_lengths:
  "substring t 0 (length t - length (trimStart t)) = takeWhile isWhiteSpace t"
proof -
  have "substring t 0 (length t - length (dropWhile isWhiteSpace t))
        = take (length t - length (dropWhile isWhiteSpace t)) t"
    by (simp add: substring_def Let_def)
  then show ?thesis by (simp only: trimStart_def takeWhile_by_lengths)
qed

text \<open>The base indent the code reads is the one of the amended claim.\<close>

lemma getBaseIndent_spec: "getBaseIndent doc n = indentBeforeStart_spec doc n"
proof -
  define off where "off = min n (length (content doc))"
  define L where "L = getLineOffsets doc"
  define ln where "ln = line (positionAt doc n)"
  define nx where "nx = offsetAt doc \<lparr>line = ln + 1, character = 0\<rparr>"
  note f = positionAt_line [of doc n, folded off_def L_def ln_def]
  have lnL: "ln < length L" and le: "L ! ln \<le> off" and ch: "character (positionAt doc n) = off - L ! ln"
    using f(1,2,3) by simp_all
  have off_len: "off \<le> length (content doc)" by (simp add: off_def)
  have st: "offsetAt doc \<lparr>line = ln, character = 0\<rparr> = L ! ln"
    using offsetAt_line_start [of ln doc] lnL by (simp add: L_def)
  have en: "offsetAt doc (positionAt doc n) = off"
    by (simp add: off_def offsetAt_positionAt)
  have off_nx: "off \<le> nx"
  proof (cases "ln + 1 < length L")
    case True
    then have "nx = L ! (ln + 1)"
      using offsetAt_line_start [of "ln + 1" doc] by (simp add: nx_def L_def)
    then show ?thesis using f(4) True by simp
  next
    case False
    then have "nx = length (content doc)"
      by (simp add: nx_def offsetAt_def Let_def L_def)
    then show ?thesis using off_len by simp
  qed
  have pos_eq: "\<lparr>line = ln, character = off - L ! ln\<rparr> = positionAt doc n"
    using ch by (simp add: ln_def)
  have startLine: "getTextRange doc \<lparr>start = \<lparr>line = ln, character = 0\<rparr>, endp = positionAt doc n\<rparr>
                   = take (off - L ! ln) (drop (L ! ln) (content doc))"
    using le off_len by (simp add: getTextRange_def substring_def Let_def st en min_def max_def)
  have "lineTextAt_spec doc n = substring (content doc) (L ! ln) nx"
    by (simp add: lineTextAt_spec_def getTextRange_def ln_def [symmetric] st nx_def)
  then have lineText: "lineTextAt_spec doc n
                  = take (min nx (length (content doc)) - L ! ln) (drop (L ! ln) (content doc))"
    using le off_len off_nx by (simp add: substring_def Let_def min_def max_def)
  have "take (off - L ! ln) (lineTextAt_spec doc n) = take (off - L ! ln) (drop (L ! ln) (content doc))"
    using off_nx off_len by (simp add: lineText min_def)
  then have spec: "indentBeforeStart_spec doc n
                   = takeWhile isWhiteSpace (take (off - L ! ln) (drop (L ! ln) (content doc)))"
    by (simp add: indentBeforeStart_spec_def ch)
  have "getBaseIndent doc n
        = takeWhile isWhiteSpace (take (off - L ! ln) (drop (L ! ln) (content doc)))"
    unfolding getBaseIndent_def Let_def ln_def [symmetric] startLine
    by (rule leading_by_lengths)
  then show ?thesis by (simp add: spec)
qed

lemma reflow_with_base:
  "patchInterpolationIndent document mappings nestedIndent data =
   indentationReflowWith_spec getBaseIndent document mappings nestedIndent data"
  unfolding patchInterpolationIndent_def indentationReflowWith_spec_def patchLoop_eq
  by (simp add: patchMapping_spec wantsFirstNewline_spec wantsFinalNewline_spec)

text \<open>
  Claim C7, as the specification states it: the base indent that prefixes the lines is the
  leading white space of the outer-document line containing the mapping's start offset.
  It is not, for a mapping that starts inside the indentation of its line: at offset 2 of
  \<open>"    a\nb"\<close> the line's leading white space is four spaces, and the final line \<open>b\<close>
  is prefixed with two.
\<close>

theorem reflow_base_indent_counterexample:
  "lineIndent_spec indentExampleDocument (fst (sourceRange indentExampleMapping)) = ''    '' \<and>
   substring (content indentExampleDocument) (fst (sourceRange indentExampleMapping))
     (snd (sourceRange indentExampleMapping)) = ''  a'' @ [LF] @ ''b'' \<and>
   map newText (indentationReflowAsStated_spec indentExampleDocument [indentExampleMapping] []
                  FormattingOn) = [''  a'' @ [LF] @ ''    b''] \<and>
   map newText (patchInterpolationIndent indentExampleDocument [indentExampleMapping] []
                  FormattingOn) = [''  a'' @ [LF] @ ''  b''] \<and>
   patchInterpolationIndent indentExampleDocument [indentExampleMapping] [] FormattingOn
     \<noteq> indentationReflowAsStated_spec indentExampleDocument [indentExampleMapping] [] FormattingOn"
  by code_simp

text \<open>
  Claim C7, amended. For every mapping handled by the indentation reflow whose outer text
  at the source range holds a line break: after the optional first and final newline
  insertions every interior non-empty line is prefixed with the base indent followed by
  the nested indent, the final line with the base indent alone, the base indent being the
  leading white space of the part of the outer-document line that lies before the
  mapping's start offset; a replace edit over the mapping's source range is emitted only
  when the text changed; a mapping whose text has no line break is skipped. The loops of
  \<^verbatim>\<open>patchInterpolationIndent\<close> compute, for every document, mapping list, nested indent
  and capability, exactly the edits of \<^const>\<open>indentationReflow_spec\<close>.
\<close>

theorem reflow_refines_spec:
  "patchInterpolationIndent document mappings nestedIndent data =
   indentationReflow_spec document mappings nestedIndent data"
  unfolding reflow_with_base indentationReflow_spec_def indentationReflowWith_spec_def
  by (simp add: getBaseIndent_spec)

text \<open>The mapping inside the indentation: both the code and the amended reflow prefix the
  final line with the two spaces in front of the mapping.\<close>

theorem reflow_refines_spec_witness:
  "indentBeforeStart_spec indentExampleDocument (fst (sourceRange indentExampleMapping)) = ''  '' \<and>
   indentationReflow_spec indentExampleDocument [indentExampleMapping] [] FormattingOn
     = [\<lparr>edit_range = \<lparr>start = \<lparr>line = 0, character = 2\<rparr>, endp = \<lparr>line = 1, character = 1\<rparr>\<rparr>,
          newText = ''  a'' @ [LF] @ ''  b''\<rparr>]"
proof -
  have "patchInterpolationIndent indentExampleDocument [indentExampleMapping] [] FormattingOn
     = [\<lparr>edit_range = \<lparr>start = \<lparr>line = 0, character = 2\<rparr>, endp = \<lparr>line = 1, character = 1\<rparr>\<rparr>,
          newText = ''  a'' @ [LF] @ ''  b''\<rparr>]"
    by code_simp
  moreover have "indentBeforeStart_spec indentExampleDocument
                   (fst (sourceRange indentExampleMapping)) = ''  ''"
    by code_simp
  ultimately show ?thesis
    using reflow_refines_spec [of indentExampleDocument "[indentExampleMapping]" "[]" FormattingOn]
    by simp
qed

text \<open>
  Claim C3, as the specification states it: with line indent \<open>"  "\<close>, nested indent
  \<open>"  "\<close> and the mapping text \<open>"function f() {\n  return 1;\n}"\<close> the patched text
  would be \<open>"function f() {\n    return 1;\n  }"\<close>. It is not: the interior line keeps
  the two spaces it already has behind the four-space prefix.
\<close>

theorem reflow_example_counterexample:
  "getBaseIndent reflowExampleDocument (fst (sourceRange reflowExampleMapping)) = ''  '' \<and>
   substring (content reflowExampleDocument) (fst (sourceRange reflowExampleMapping))
     (snd (sourceRange reflowExampleMapping)) = reflowExampleText \<and>
   map newText (patchInterpolationIndent reflowExampleDocument [reflowExampleMapping] ''  '' FormattingOn)
     \<noteq> [''function f() {'' @ [LF] @ ''    return 1;'' @ [LF] @ ''  }'']"
  by code_simp

text \<open>
  Claim C3, amended. For a mapping whose outer-document line indent is \<open>"  "\<close>, with
  nested indent \<open>"  "\<close>, whose outer text is \<open>"function f() {\n  return 1;\n}"\<close> and for
  which no first or final newline is inserted, the reflow emits, over the mapping's
  source range, the patched text \<open>"function f() {\n      return 1;\n  }"\<close>: the interior
  line is prefixed with base indent and nested indent (six spaces in all), the final
  line with the base indent.
\<close>

theorem reflow_example:
  assumes "i < length mappings"
    and "getBaseIndent document (fst (sourceRange (mappings ! i))) = ''  ''"
    and "substring (content document) (fst (sourceRange (mappings ! i)))
           (snd (sourceRange (mappings ! i))) = reflowExampleText"
    and "\<not> (wantsFirstNewline data \<and> i = 0)"
    and "\<not> (wantsFinalNewline data \<and> i + 1 = length mappings)"
  shows "\<lparr>edit_range = \<lparr>start = positionAt document (fst (sourceRange (mappings ! i))),
                         endp = positionAt document (snd (sourceRange (mappings ! i)))\<rparr>,
           newText = ''function f() {'' @ [LF] @ ''      return 1;'' @ [LF] @ ''  }''\<rparr>
         \<in> set (patchInterpolationIndent document mappings ''  '' data)"
proof -
  have "reflowMappingWith_spec document ''  '' ''  '' False False (mappings ! i) =
      Some \<lparr>edit_range = \<lparr>start = positionAt document (fst (sourceRange (mappings ! i))),
                         endp = positionAt document (snd (sourceRange (mappings ! i)))\<rparr>,
           newText = ''function f() {'' @ [LF] @ ''      return 1;'' @ [LF] @ ''  }''\<rparr>"
    unfolding reflowMappingWith_spec_def Let_def assms(3)
    by (simp add: reflowExampleText_def reflowLines_spec_def LF_def)
  moreover have "patchMapping document ''  '' (wantsFirstNewline data) (wantsFinalNewline data)
      (length mappings) i (mappings ! i)
      = reflowMappingWith_spec document ''  '' ''  '' False False (mappings ! i)"
  proof -
    have off: "(wantsFirstNewline data \<and> i = 0) = False"
      "(wantsFinalNewline data \<and> i + 1 = length mappings) = False"
      using assms(4,5) by auto
    show ?thesis by (simp only: patchMapping_spec off assms(2))
  qed
  ultimately show ?thesis
    using assms(1)
    unfolding patchInterpolationIndent_def patchLoop_eq
    by (auto simp: List.map_filter_def intro!: image_eqI [where x = i])
qed

theorem reflow_example_witness:
  "\<lparr>edit_range = \<lparr>start = \<lparr>line = 0, character = 2\<rparr>, endp = \<lparr>line = 2, character = 1\<rparr>\<rparr>,
     newText = ''function f() {'' @ [LF] @ ''      return 1;'' @ [LF] @ ''  }''\<rparr>
   \<in> set (patchInterpolationIndent reflowExampleDocument [reflowExampleMapping] ''  '' FormattingOn)"
proof -
  have a: "(0::nat) < length [reflowExampleMapping]" by simp
  have b: "getBaseIndent reflowExampleDocument (fst (sourceRange ([reflowExampleMapping] ! 0))) = ''  ''"
    by code_simp
  have c: "substring (content reflowExampleDocument) (fst (sourceRange ([reflowExampleMapping] ! 0)))
           (snd (sourceRange ([reflowExampleMapping] ! 0))) = reflowExampleText"
    by code_simp
  have d: "\<not> (wantsFirstNewline FormattingOn \<and> (0::nat) = 0)"
    by (simp add: wantsFirstNewline_def)
  have e: "\<not> (wantsFinalNewline FormattingOn \<and> (0::nat) + 1 = length [reflowExampleMapping])"
    by (simp add: wantsFinalNewline_def)
  have p1: "positionAt reflowExampleDocument (fst (sourceRange ([reflowExampleMapping] ! 0)))
            = \<lparr>line = 0, character = 2\<rparr>"
    by code_simp
  have p2: "positionAt reflowExampleDocument (snd (sourceRange ([reflowExampleMapping] ! 0)))
            = \<lparr>line = 2, character = 1\<rparr>"
    by code_simp
  show ?thesis
    using reflow_example [OF a b c d e] unfolding p1 p2 .
qed

section \<open>Provider dispatch: \<^verbatim>\<open>tryFormat\<close>\<close>

record FormattingOptions =
  tabSize :: nat
  insertSpaces :: bool

text \<open>What a call of a plugin method does: it throws, or it returns an edit list, or
  \<^verbatim>\<open>null\<close>/\<^verbatim>\<open>undefined\<close> (\<open>None\<close>).\<close>

datatype PluginOutcome = Throws string | Returns "TextEdit list option"

text \<open>A plugin; both methods are optional.\<close>

record LanguageServicePlugin =
  format :: "(TextDocument \<Rightarrow> Range \<Rightarrow> FormattingOptions \<Rightarrow> PluginOutcome) option"
  formatOnType ::
    "(TextDocument \<Rightarrow> Position \<Rightarrow> string \<Rightarrow> FormattingOptions \<Rightarrow> PluginOutcome) option"

datatype RangeOrPosition = IsRange Range | IsPosition Position

text \<open>The body of the \<^verbatim>\<open>try\<close> block: which method is called depends on whether a
  character was given and on the shape of \<open>formatRange\<close>; in the two mixed cases
  nothing is called and \<open>edits\<close> stays undefined.\<close>

definition callPlugin ::
  "LanguageServicePlugin \<Rightarrow> FormattingOptions \<Rightarrow> TextDocument \<Rightarrow> RangeOrPosition \<Rightarrow>
   string option \<Rightarrow> PluginOutcome" where
  "callPlugin plugin options doc formatRange ch =
     (case (ch, formatRange) of
        (Some c, IsPosition p) \<Rightarrow>
          (case formatOnType plugin of None \<Rightarrow> Returns None | Some f \<Rightarrow> f doc p c options)
      | (None, IsRange r) \<Rightarrow>
          (case format plugin of None \<Rightarrow> Returns None | Some f \<Rightarrow> f doc r options)
      | _ \<Rightarrow> Returns None)"

text \<open>The loop over the plugins, with the console as the list of warnings written so
  far. A caught error is written to the console and leaves \<open>edits\<close> undefined; a falsy
  \<open>edits\<close> continues with the next plugin; any array, also an empty one, is returned.\<close>

fun tryFormatLoop ::
  "LanguageServicePlugin list \<Rightarrow> FormattingOptions \<Rightarrow> TextDocument \<Rightarrow> RangeOrPosition \<Rightarrow>
   string option \<Rightarrow> string list \<Rightarrow> TextEdit list option \<times> string list" where
  "tryFormatLoop [] options doc formatRange ch warnings = (None, warnings)"
| "tryFormatLoop (plugin # rest) options doc formatRange ch warnings =
     (case callPlugin plugin options doc formatRange ch of
        Throws err \<Rightarrow> tryFormatLoop rest options doc formatRange ch (warnings @ [err])
      | Returns None \<Rightarrow> tryFormatLoop rest options doc formatRange ch warnings
      | Returns (Some edits) \<Rightarrow> (Some edits, warnings))"

definition tryFormat ::
  "LanguageServicePlugin list \<Rightarrow> FormattingOptions \<Rightarrow> TextDocument \<Rightarrow> RangeOrPosition \<Rightarrow>
   string option \<Rightarrow> string list \<Rightarrow> TextEdit list option \<times> string list" where
  "tryFormat plugins options doc formatRange ch warnings =
     tryFormatLoop plugins options doc formatRange ch warnings"

subsection \<open>The dispatch as the specification words it\<close>

text \<open>A provider has an opinion when its call returns an edit list.\<close>

definition hasOpinion :: "PluginOutcome \<Rightarrow> bool" where
  "hasOpinion out = (case out of Returns (Some edits) \<Rightarrow> True | _ \<Rightarrow> False)"

text \<open>The result used: that of the first provider, in order, with an opinion.\<close>

definition dispatchResult_spec :: "PluginOutcome list \<Rightarrow> TextEdit list option" where
  "dispatchResult_spec outs =
     (case List.find hasOpinion outs of Some (Returns r) \<Rightarrow> r | _ \<Rightarrow> None)"

text \<open>The errors logged: those of the providers tried, that is, of the ones before the
  first with an opinion.\<close>

definition dispatchLogged_spec :: "PluginOutcome list \<Rightarrow> string list" where
  "dispatchLogged_spec outs =
     List.map_filter (\<lambda>out. case out of Throws err \<Rightarrow> Some err | _ \<Rightarrow> None)
       (takeWhile (\<lambda>out. \<not> hasOpinion out) outs)"

section \<open>Translating edits back: the loop over \<^verbatim>\<open>virtualCodeEdits\<close>\<close>

text \<open>\<open>toSourceRange\<close> is the mapper's method, applied to the range of each edit; an
  edit whose range does not translate is not pushed.\<close>

fun pushSourceEdits ::
  "(Range \<Rightarrow> Range option) \<Rightarrow> TextEdit list \<Rightarrow> TextEdit list \<Rightarrow> TextEdit list" where
  "pushSourceEdits toSource [] edits = edits"
| "pushSourceEdits toSource (textEdit # rest) edits =
     pushSourceEdits toSource rest
       (case toSource (edit_range textEdit) of
          None \<Rightarrow> edits
        | Some r \<Rightarrow> edits @ [\<lparr>edit_range = r, newText = newText textEdit\<rparr>])"

section \<open>Level traversal: \<^verbatim>\<open>getEmbeddedFilesByLevel\<close>\<close>

text \<open>The \<^verbatim>\<open>while (true)\<close> loop on the list of levels built so far. The list starts as
  \<open>[[rootFile]]\<close> and only grows, so its last element exists.\<close>

function embeddedFilesLoop :: "VirtualFile list list \<Rightarrow> nat \<Rightarrow> VirtualFile list" where
  "embeddedFilesLoop embeddedFilesByLevel level =
     (if length embeddedFilesByLevel > level then embeddedFilesByLevel ! level
      else embeddedFilesLoop
             (embeddedFilesByLevel @ [concat (map embeddedFiles (last embeddedFilesByLevel))])
             level)"
  by pat_completeness auto
termination
  by (relation "measure (\<lambda>(e, l). Suc l - length e)") auto

declare embeddedFilesLoop.simps [simp del]

definition getEmbeddedFilesByLevel :: "VirtualFile \<Rightarrow> nat \<Rightarrow> VirtualFile list" where
  "getEmbeddedFilesByLevel rootFile level = embeddedFilesLoop [[rootFile]] level"

subsection \<open>Breadth-first depth, as the specification words it\<close>

text \<open>The regions at depth \<open>l\<close> below a list of regions: the regions themselves at depth
  0, the regions at depth \<open>l\<close> below their children at depth \<open>l + 1\<close>.\<close>

fun regionsAtDepth :: "nat \<Rightarrow> VirtualFile list \<Rightarrow> VirtualFile list" where
  "regionsAtDepth 0 files = files"
| "regionsAtDepth (Suc l) files = regionsAtDepth l (concat (map embeddedFiles files))"

text \<open>The depth of a tree: 0 for a root without embedded files, one more than the
  deepest child otherwise.\<close>

fun treeDepth :: "VirtualFile \<Rightarrow> nat" where
  "treeDepth (VirtualFile name fmt children) =
     (if children = [] then 0 else Suc (Max (set (map treeDepth children))))"

subsection \<open>Properties of the traversal\<close>

lemma regionsAtDepth_Suc:
  "regionsAtDepth (Suc l) files = concat (map embeddedFiles (regionsAtDepth l files))"
  by (induction l arbitrary: files) simp_all

lemma embeddedFilesLoop_eq:
  assumes "ebl \<noteq> []" and "ebl = map (\<lambda>l. regionsAtDepth l [rootFile]) [0..<length ebl]"
  shows "embeddedFilesLoop ebl level = regionsAtDepth level [rootFile]"
  using assms
proof (induction ebl level rule: embeddedFilesLoop.induct)
  case (1 ebl level)
  show ?case
  proof (cases "length ebl > level")
    case True
    have "ebl ! level = map (\<lambda>l. regionsAtDepth l [rootFile]) [0..<length ebl] ! level"
      using "1.prems"(2) by simp
    also have "\<dots> = regionsAtDepth level [rootFile]" using True by simp
    finally show ?thesis using True by (subst embeddedFilesLoop.simps) simp
  next
    case False
    let ?next = "ebl @ [concat (map embeddedFiles (last ebl))]"
    have lst: "last ebl = regionsAtDepth (length ebl - 1) [rootFile]"
    proof -
      have "last ebl = ebl ! (length ebl - 1)" using "1.prems"(1) by (simp add: last_conv_nth)
      also have "\<dots> = map (\<lambda>l. regionsAtDepth l [rootFile]) [0..<length ebl] ! (length ebl - 1)"
        using "1.prems"(2) by simp
      also have "\<dots> = regionsAtDepth (length ebl - 1) [rootFile]"
        using "1.prems"(1) by simp
      finally show ?thesis .
    qed
    have "concat (map embeddedFiles (last ebl)) = regionsAtDepth (length ebl) [rootFile]"
      using lst regionsAtDepth_Suc [of "length ebl - 1" "[rootFile]"] "1.prems"(1) by simp
    then have inv: "?next = map (\<lambda>l. regionsAtDepth l [rootFile]) [0..<length ?next]"
      using "1.prems"(2) by simp
    have "embeddedFilesLoop ebl level = embeddedFilesLoop ?next level"
      using False by (subst embeddedFilesLoop.simps) simp
    also have "\<dots> = regionsAtDepth level [rootFile]"
      using "1.IH" [OF False _ inv] by simp
    finally show ?thesis .
  qed
qed

lemma getEmbeddedFilesByLevel_eq:
  "getEmbeddedFilesByLevel rootFile level = regionsAtDepth level [rootFile]"
  unfolding getEmbeddedFilesByLevel_def
  by (rule embeddedFilesLoop_eq) simp_all

lemma treeDepth_Suc_le:
  "Suc l \<le> treeDepth f \<longleftrightarrow> (\<exists>g \<in> set (embeddedFiles f). l \<le> treeDepth g)"
  by (cases f) (auto simp: Max_ge_iff)

lemma regionsAtDepth_nonempty:
  "regionsAtDepth l files \<noteq> [] \<longleftrightarrow> (\<exists>f \<in> set files. l \<le> treeDepth f)"
proof (induction l arbitrary: files)
  case 0
  then show ?case by (cases files) auto
next
  case (Suc l)
  show ?case by (simp add: Suc treeDepth_Suc_le)
qed

lemma level_empty_iff:
  "getEmbeddedFilesByLevel rootFile level = [] \<longleftrightarrow> treeDepth rootFile < level"
  using regionsAtDepth_nonempty [of level "[rootFile]"]
  by (auto simp: getEmbeddedFilesByLevel_eq)

section \<open>Applying a batch of edits\<close>

text \<open>\<^verbatim>\<open>TextDocument.applyEdits\<close> of the text document library: every range is made
  well-formed (start before end), the edits are sorted by start position with a stable
  merge sort, and the spans between them are copied. An edit that starts before the end
  of its predecessor raises \<open>Overlapping edit\<close>.\<close>

datatype FormatError = OverlappingEdit

definition positionBefore :: "Position \<Rightarrow> Position \<Rightarrow> bool" where
  "positionBefore p q = (line p < line q \<or> (line p = line q \<and> character p < character q))"

definition getWellformedEdit :: "TextEdit \<Rightarrow> TextEdit" where
  "getWellformedEdit e =
     (if positionBefore (endp (edit_range e)) (start (edit_range e))
      then e\<lparr>edit_range := \<lparr>start = endp (edit_range e), endp = start (edit_range e)\<rparr>\<rparr>
      else e)"

text \<open>A stable sort by a comparator, as \<^verbatim>\<open>Array.prototype.sort\<close> and the library's
  merge sort are: an element goes in front of the first element it does not exceed.\<close>

fun insertBy :: "('a \<Rightarrow> 'a \<Rightarrow> int) \<Rightarrow> 'a \<Rightarrow> 'a list \<Rightarrow> 'a list" where
  "insertBy cmp x [] = [x]"
| "insertBy cmp x (y # ys) = (if cmp x y \<le> 0 then x # y # ys else y # insertBy cmp x ys)"

fun sortBy :: "('a \<Rightarrow> 'a \<Rightarrow> int) \<Rightarrow> 'a list \<Rightarrow> 'a list" where
  "sortBy cmp [] = []"
| "sortBy cmp (x # xs) = insertBy cmp x (sortBy cmp xs)"

definition byStartPosition :: "TextEdit \<Rightarrow> TextEdit \<Rightarrow> int" where
  "byStartPosition a b =
     (let diff = int (line (start (edit_range a))) - int (line (start (edit_range b)))
      in if diff = 0
         then int (character (start (edit_range a))) - int (character (start (edit_range b)))
         else diff)"

fun applySortedEdits ::
  "TextDocument \<Rightarrow> TextEdit list \<Rightarrow> nat \<Rightarrow> string \<Rightarrow> FormatError + string" where
  "applySortedEdits doc [] lastModifiedOffset spans =
     Inr (spans @ drop lastModifiedOffset (content doc))"
| "applySortedEdits doc (e # es) lastModifiedOffset spans =
     (let startOffset = offsetAt doc (start (edit_range e))
      in if startOffset < lastModifiedOffset then Inl OverlappingEdit
         else applySortedEdits doc es (offsetAt doc (endp (edit_range e)))
                (spans @ substring (content doc) lastModifiedOffset startOffset @ newText e))"

definition applyEdits :: "TextDocument \<Rightarrow> TextEdit list \<Rightarrow> FormatError + string" where
  "applyEdits doc es =
     applySortedEdits doc (sortBy byStartPosition (map getWellformedEdit es)) 0 []"

section \<open>The document registry and the host\<close>

text \<open>A mapper object of the registry (\<^verbatim>\<open>SourceMapWithDocuments\<close>): the outer document,
  the document of the embedded file and the array \<^verbatim>\<open>map.mappings\<close>.\<close>

record SourceMapWithDocuments =
  sourceFileDocument :: TextDocument
  virtualFileDocument :: TextDocument
  mappings :: "Mapping list"

text \<open>A source of the registry: the live snapshot of a root document and its root file.\<close>

record Source =
  snapshot :: string
  root :: VirtualFile

text \<open>Modelled from the spec: the document registry, whose code lies outside the formatter.
  It associates a file name with its source (root region and live
  snapshot), and it holds the mapper objects, each with the file that owns it. A lookup
  yields the registry's objects themselves, so a mapper is named by its place in
  \<open>mapObjects\<close>, and a change made to one in place is seen by later lookups.\<close>

record Registry =
  sources :: "(string \<times> Source) list"
  mapObjects :: "(VirtualFile \<times> SourceMapWithDocuments) list"

text \<open>The collaborators of one request: the host's documents, the plugins in registration
  order, the configuration \<^verbatim>\<open>volar.format.initialIndent\<close> (absent without a configuration
  host or value), the URI-to-file-name conversion, the regeneration of the mapper objects
  that the language performs for a new snapshot, and the three translations of a mapper.\<close>

record Context =
  getTextDocument :: "string \<Rightarrow> TextDocument option"
  plugins :: "LanguageServicePlugin list"
  getConfiguration :: "(string \<Rightarrow> bool) option"
  uriToFileName :: "string \<Rightarrow> string"
  regenerate ::
    "string \<Rightarrow> string \<Rightarrow> (VirtualFile \<times> SourceMapWithDocuments) list \<Rightarrow>
     (VirtualFile \<times> SourceMapWithDocuments) list"
  toGeneratedPosition :: "SourceMapWithDocuments \<Rightarrow> Position \<Rightarrow> Position option"
  toGeneratedRange :: "SourceMapWithDocuments \<Rightarrow> Range \<Rightarrow> Range option"
  toSourceRange :: "SourceMapWithDocuments \<Rightarrow> Range \<Rightarrow> Range option"

text \<open>Modelled from the spec: \<open>getSourceByUri(uri) -> {snapshot, rootRegion} | absent\<close>.\<close>

definition getSourceByUri :: "Context \<Rightarrow> Registry \<Rightarrow> string \<Rightarrow> Source option" where
  "getSourceByUri ctx reg u = map_of (sources reg) (uriToFileName ctx u)"

text \<open>Modelled from the spec: \<open>getMappingsByRegionName(name) -> iterable of (ownerFile,
  RangeMapper)\<close>, each with its place in the registry.\<close>

definition getMapsByVirtualFileName ::
  "Registry \<Rightarrow> string \<Rightarrow> (nat \<times> VirtualFile \<times> SourceMapWithDocuments) list" where
  "getMapsByVirtualFileName reg name =
     filter (\<lambda>(a, f, m). fileName f = name) (enumerate 0 (mapObjects reg))"

text \<open>Modelled from the spec: \<open>getMappingsByRegionUri(uri) -> same\<close>; the region's URI
  is the one of its document.\<close>

definition getMapsByVirtualFileUri ::
  "Registry \<Rightarrow> string \<Rightarrow> (nat \<times> VirtualFile \<times> SourceMapWithDocuments) list" where
  "getMapsByVirtualFileUri reg u =
     filter (\<lambda>(a, f, m). uri (virtualFileDocument m) = u) (enumerate 0 (mapObjects reg))"

text \<open>Modelled from the spec: \<open>updateSource(uri, snapshot)\<close> pushes or restores the
  overlay state: the source of the file gets the snapshot, and the mapper objects are
  regenerated for it.\<close>

definition updateSource :: "Context \<Rightarrow> string \<Rightarrow> string \<Rightarrow> Registry \<Rightarrow> Registry" where
  "updateSource ctx name snap reg =
     (case map_of (sources reg) name of
        None \<Rightarrow> reg
      | Some src \<Rightarrow>
          \<lparr>sources = AList.update name (src\<lparr>snapshot := snap\<rparr>) (sources reg),
           mapObjects = regenerate ctx name snap (mapObjects reg)\<rparr>)"

section \<open>The format request: \<^verbatim>\<open>register\<close>\<close>

text \<open>The variables of one request that change while it runs: the working document, the
  \<open>edited\<close> flag, the registry (its overlay and its mapper objects) and the console.\<close>

record FormatState =
  document :: TextDocument
  edited :: bool
  registry :: Registry
  console :: "string list"

text \<open>The comparators of the two in-place sorts of \<^verbatim>\<open>map.map.mappings\<close>.\<close>

definition bySourceStartAscending :: "Mapping \<Rightarrow> Mapping \<Rightarrow> int" where
  "bySourceStartAscending a b = int (fst (sourceRange a)) - int (fst (sourceRange b))"

definition bySourceStartDescending :: "Mapping \<Rightarrow> Mapping \<Rightarrow> int" where
  "bySourceStartDescending a b = int (fst (sourceRange b)) - int (fst (sourceRange a))"

text \<open>The fallback when the requested range does not map: the array is sorted ascending
  for \<open>firstMapping\<close>, then descending for \<open>lastMapping\<close>, both in place; the
  result is the range, if any, and the mapper as the sorts leave it.\<close>

definition fallbackRange ::
  "TextDocument \<Rightarrow> Range \<Rightarrow> SourceMapWithDocuments \<Rightarrow> Range option \<times> SourceMapWithDocuments" where
  "fallbackRange doc requestRange m =
     (let sorted1 = sortBy bySourceStartAscending (mappings m);
          firstMapping = (case sorted1 of [] \<Rightarrow> None | x # _ \<Rightarrow> Some x);
          sorted2 = sortBy bySourceStartDescending sorted1;
          lastMapping = (case sorted2 of [] \<Rightarrow> None | x # _ \<Rightarrow> Some x)
      in ((case (firstMapping, lastMapping) of
             (Some f, Some l) \<Rightarrow>
               if offsetAt doc (start requestRange) < fst (sourceRange f)
                  \<and> offsetAt doc (endp requestRange) > snd (sourceRange l)
               then Some \<lparr>start = positionAt (virtualFileDocument m) (fst (generatedRange f)),
                          endp = positionAt (virtualFileDocument m) (snd (generatedRange l))\<rparr>
               else None
           | _ \<Rightarrow> None),
          m\<lparr>mappings := sorted2\<rparr>))"

text \<open>\<open>virtualCodeRange\<close> for a range request: the direct translation, or the fallback.\<close>

definition virtualCodeRangeOf ::
  "Context \<Rightarrow> TextDocument \<Rightarrow> Range \<Rightarrow> SourceMapWithDocuments \<Rightarrow>
   Range option \<times> SourceMapWithDocuments" where
  "virtualCodeRangeOf ctx doc requestRange m =
     (case toGeneratedRange ctx m requestRange of
        Some r \<Rightarrow> (Some r, m)
      | None \<Rightarrow> fallbackRange doc requestRange m)"

text \<open>Formatting an embedded document over a range and translating the edits back:
  \<^verbatim>\<open>tryFormat(map.virtualFileDocument, virtualCodeRange)\<close>, the push of the URI when
  \<open>virtualCodeEdits\<close> is truthy, and the loop over the edits.\<close>

definition formatOverRange ::
  "Context \<Rightarrow> FormattingOptions \<Rightarrow> SourceMapWithDocuments \<Rightarrow> Range \<Rightarrow>
   TextEdit list \<times> string list \<times> FormatState \<Rightarrow> TextEdit list \<times> string list \<times> FormatState" where
  "formatOverRange ctx options m r acc =
     (case acc of (edits, toPatchIndentUris, st) \<Rightarrow>
        (case tryFormat (plugins ctx) options (virtualFileDocument m) (IsRange r) None (console st) of
           (None, con) \<Rightarrow> (edits, toPatchIndentUris, st\<lparr>console := con\<rparr>)
         | (Some virtualCodeEdits, con) \<Rightarrow>
             (pushSourceEdits (toSourceRange ctx m) virtualCodeEdits edits,
              toPatchIndentUris @ [uri (virtualFileDocument m)],
              st\<lparr>console := con\<rparr>)))"

text \<open>The same for an on-type event at a position; no URI is pushed.\<close>

definition formatOnTypeAt ::
  "Context \<Rightarrow> FormattingOptions \<Rightarrow> SourceMapWithDocuments \<Rightarrow> Position \<Rightarrow> string \<Rightarrow>
   TextEdit list \<times> string list \<times> FormatState \<Rightarrow> TextEdit list \<times> string list \<times> FormatState" where
  "formatOnTypeAt ctx options m embeddedPosition ch acc =
     (case acc of (edits, toPatchIndentUris, st) \<Rightarrow>
        (case tryFormat (plugins ctx) options (virtualFileDocument m)
                (IsPosition embeddedPosition) (Some ch) (console st) of
           (None, con) \<Rightarrow> (edits, toPatchIndentUris, st\<lparr>console := con\<rparr>)
         | (Some virtualCodeEdits, con) \<Rightarrow>
             (pushSourceEdits (toSourceRange ctx m) virtualCodeEdits edits,
              toPatchIndentUris, st\<lparr>console := con\<rparr>)))"

text \<open>The mapper at place \<open>a\<close> of the registry after the sorts: the array is the
  registry's own, so the registry holds it as the sorts left it.\<close>

definition storeMapper :: "nat \<Rightarrow> VirtualFile \<Rightarrow> SourceMapWithDocuments \<Rightarrow> FormatState \<Rightarrow> FormatState" where
  "storeMapper a f m st =
     st\<lparr>registry := (registry st)\<lparr>mapObjects := (mapObjects (registry st))[a := (f, m)]\<rparr>\<rparr>"

text \<open>The body of the loop over the embedded files of a level, on the edits and the URIs
  to patch collected so far.\<close>

definition processEmbedded ::
  "Context \<Rightarrow> FormattingOptions \<Rightarrow> Range \<Rightarrow> (string \<times> Position) option \<Rightarrow> VirtualFile \<Rightarrow>
   TextEdit list \<times> string list \<times> FormatState \<Rightarrow> TextEdit list \<times> string list \<times> FormatState" where
  "processEmbedded ctx options requestRange onTypeParams embedded acc =
     (case acc of (edits, toPatchIndentUris, st) \<Rightarrow>
        if documentFormatting embedded = FormattingOff then acc
        else
          (case List.find (\<lambda>(a, f, m). uri (sourceFileDocument m) = uri (document st))
                  (getMapsByVirtualFileName (registry st) (fileName embedded)) of
             None \<Rightarrow> acc
           | Some (a, f, m) \<Rightarrow>
               (case onTypeParams of
                  Some (ch, position) \<Rightarrow>
                    (case toGeneratedPosition ctx m position of
                       None \<Rightarrow> acc
                     | Some embeddedPosition \<Rightarrow>
                         formatOnTypeAt ctx options m embeddedPosition ch acc)
                | None \<Rightarrow>
                    (case virtualCodeRangeOf ctx (document st) requestRange m of
                       (None, m1) \<Rightarrow> (edits, toPatchIndentUris, storeMapper a f m1 st)
                     | (Some r, m1) \<Rightarrow>
                         formatOverRange ctx options m1 r
                           (edits, toPatchIndentUris, storeMapper a f m1 st)))))"

text \<open>\<^verbatim>\<open>if (edits.length > 0) { ... }\<close>: the batch is applied to the working document, the
  version advances, the new text is pushed into the overlay and \<open>edited\<close> is set. The
  same four lines serve the translated edits and the indent edits.\<close>

definition applyBatch ::
  "Context \<Rightarrow> TextEdit list \<Rightarrow> FormatState \<Rightarrow> FormatError \<times> FormatState + FormatState" where
  "applyBatch ctx es st =
     (if es = [] then Inr st
      else
        (case applyEdits (document st) es of
           Inl err \<Rightarrow> Inl (err, st)
         | Inr newContent \<Rightarrow>
             (let doc' = \<lparr>uri = uri (document st), languageId = languageId (document st),
                          version = version (document st) + 1, content = newContent\<rparr>
              in Inr (st\<lparr>document := doc',
                        registry := updateSource ctx (uriToFileName ctx (uri doc')) (content doc')
                                      (registry st),
                        edited := True\<rparr>))))"

text \<open>The inner reflow loop, over the mappers of one URI.\<close>

fun patchMaps ::
  "Context \<Rightarrow> (string \<Rightarrow> bool) \<Rightarrow> string \<Rightarrow> (nat \<times> VirtualFile \<times> SourceMapWithDocuments) list \<Rightarrow>
   FormatState \<Rightarrow> FormatError \<times> FormatState + FormatState" where
  "patchMaps ctx initialIndentLanguageId baseIndent [] st = Inr st"
| "patchMaps ctx initialIndentLanguageId baseIndent ((a, file, m) # rest) st =
     (case applyBatch ctx
             (patchInterpolationIndent (document st) (mappings m)
                (if initialIndentLanguageId (languageId (virtualFileDocument m))
                 then baseIndent else [])
                (documentFormatting file))
             st of
        Inl e \<Rightarrow> Inl e
      | Inr st' \<Rightarrow> patchMaps ctx initialIndentLanguageId baseIndent rest st')"

text \<open>The outer reflow loop, over \<open>toPatchIndentUris\<close>; the mappers of a URI are looked
  up when its turn comes.\<close>

fun patchUris ::
  "Context \<Rightarrow> (string \<Rightarrow> bool) \<Rightarrow> string \<Rightarrow> string list \<Rightarrow> FormatState \<Rightarrow>
   FormatError \<times> FormatState + FormatState" where
  "patchUris ctx initialIndentLanguageId baseIndent [] st = Inr st"
| "patchUris ctx initialIndentLanguageId baseIndent (toPatchIndentUri # rest) st =
     (case patchMaps ctx initialIndentLanguageId baseIndent
             (getMapsByVirtualFileUri (registry st) toPatchIndentUri) st of
        Inl e \<Rightarrow> Inl e
      | Inr st' \<Rightarrow> patchUris ctx initialIndentLanguageId baseIndent rest st')"

text \<open>\<^verbatim>\<open>options.insertSpaces ? ' '.repeat(options.tabSize) : '\t'\<close>.\<close>

definition baseIndentOf :: "FormattingOptions \<Rightarrow> string" where
  "baseIndentOf options =
     (if insertSpaces options then replicate (tabSize options) CHR '' '' else [CHR 0x09])"

text \<open>The body of the level loop for a non-empty level; \<open>level\<close> is the counter after
  its increment.\<close>

definition processLevel ::
  "Context \<Rightarrow> FormattingOptions \<Rightarrow> Range \<Rightarrow> (string \<times> Position) option \<Rightarrow> (string \<Rightarrow> bool) \<Rightarrow>
   nat \<Rightarrow> VirtualFile list \<Rightarrow> FormatState \<Rightarrow> FormatError \<times> FormatState + FormatState" where
  "processLevel ctx options requestRange onTypeParams initialIndentLanguageId level files st =
     (case foldl (\<lambda>acc embedded. processEmbedded ctx options requestRange onTypeParams embedded acc)
             ([], [], st) files of
        (edits, toPatchIndentUris, st1) \<Rightarrow>
          (case applyBatch ctx edits st1 of
             Inl e \<Rightarrow> Inl e
           | Inr st2 \<Rightarrow>
               if level > 1
               then patchUris ctx initialIndentLanguageId (baseIndentOf options) toPatchIndentUris st2
               else Inr st2))"

text \<open>The level loop \<^verbatim>\<open>while (true)\<close>: it returns the state and the value of the counter
  \<open>level\<close> at the \<^verbatim>\<open>break\<close>, or the error raised on the way.\<close>

function levelLoop ::
  "Context \<Rightarrow> FormattingOptions \<Rightarrow> Range \<Rightarrow> (string \<times> Position) option \<Rightarrow> (string \<Rightarrow> bool) \<Rightarrow>
   VirtualFile \<Rightarrow> nat \<Rightarrow> FormatState \<Rightarrow> FormatError \<times> FormatState + FormatState \<times> nat" where
  "levelLoop ctx options requestRange onTypeParams initialIndentLanguageId rootVirtualFile level st =
     (if getEmbeddedFilesByLevel rootVirtualFile level = [] then Inr (st, level + 1)
      else
        (case processLevel ctx options requestRange onTypeParams initialIndentLanguageId
                (level + 1) (getEmbeddedFilesByLevel rootVirtualFile level) st of
           Inl e \<Rightarrow> Inl e
         | Inr st' \<Rightarrow>
             levelLoop ctx options requestRange onTypeParams initialIndentLanguageId
               rootVirtualFile (level + 1) st'))"
  by pat_completeness auto
termination
  by (relation "measure (\<lambda>(c, opts, r, t, i, rootFile, level, st). Suc (treeDepth rootFile) - level)")
     (auto simp: level_empty_iff)

declare levelLoop.simps [simp del]

text \<open>\<^verbatim>\<open>range ??= Range.create(document.positionAt(0), document.positionAt(length))\<close>.\<close>

definition wholeDocumentRange :: "TextDocument \<Rightarrow> Range" where
  "wholeDocumentRange doc =
     \<lparr>start = positionAt doc 0, endp = positionAt doc (length (content doc))\<rparr>"

definition requestRangeOf :: "TextDocument \<Rightarrow> Range option \<Rightarrow> Range" where
  "requestRangeOf doc range0 = (case range0 of Some r \<Rightarrow> r | None \<Rightarrow> wholeDocumentRange doc)"

text \<open>\<^verbatim>\<open>await getConfiguration('volar.format.initialIndent') ?? { html: true }\<close>.\<close>

definition initialIndentLanguageIdOf :: "Context \<Rightarrow> string \<Rightarrow> bool" where
  "initialIndentLanguageIdOf ctx =
     (case getConfiguration ctx of Some c \<Rightarrow> c | None \<Rightarrow> (\<lambda>l. l = ''html''))"

definition initialState :: "TextDocument \<Rightarrow> Registry \<Rightarrow> FormatState" where
  "initialState doc reg = \<lparr>document = doc, edited = False, registry = reg, console = []\<rparr>"

text \<open>How a request ends: with an exception, or by returning edits or nothing.\<close>

datatype Outcome = Threw FormatError | Returned "TextEdit list option"

text \<open>The request handler: its outcome, the registry as it leaves it and the console.\<close>

definition register ::
  "Context \<Rightarrow> string \<Rightarrow> FormattingOptions \<Rightarrow> Range option \<Rightarrow> (string \<times> Position) option \<Rightarrow>
   Registry \<Rightarrow> Outcome \<times> Registry \<times> string list" where
  "register ctx u options range0 onTypeParams reg =
     (case getTextDocument ctx u of
        None \<Rightarrow> (Returned None, reg, [])
      | Some doc \<Rightarrow>
          (case getSourceByUri ctx reg (uri doc) of
             None \<Rightarrow>
               (case (case onTypeParams of
                        Some (ch, position) \<Rightarrow>
                          tryFormat (plugins ctx) options doc (IsPosition position) (Some ch) []
                      | None \<Rightarrow>
                          tryFormat (plugins ctx) options doc
                            (IsRange (requestRangeOf doc range0)) None []) of
                  (r, con) \<Rightarrow> (Returned r, reg, con))
           | Some source \<Rightarrow>
               (case levelLoop ctx options (requestRangeOf doc range0) onTypeParams
                       (initialIndentLanguageIdOf ctx) (root source) 0 (initialState doc reg) of
                  Inl (err, st) \<Rightarrow> (Threw err, registry st, console st)
                | Inr (st, lvl) \<Rightarrow>
                    (let reg' = (if edited st
                                 then updateSource ctx (uriToFileName ctx (uri (document st)))
                                        (snapshot source) (registry st)
                                 else registry st)
                     in if content (document st) = content doc
                        then (Returned None, reg', console st)
                        else (Returned (Some [\<lparr>edit_range = wholeDocumentRange doc,
                                               newText = content (document st)\<rparr>]),
                              reg', console st)))))"

section \<open>A range mapper and an example world\<close>

text \<open>Modelled from the spec: the range mapper, whose code lies outside the formatter.
  It finds the mapping whose source side contains the given offset; absent if none
  covers it.\<close>

definition toGeneratedOffset :: "Mapping list \<Rightarrow> nat \<Rightarrow> nat option" where
  "toGeneratedOffset ms off =
     (case List.find (\<lambda>mp. fst (sourceRange mp) \<le> off \<and> off \<le> snd (sourceRange mp)) ms of
        None \<Rightarrow> None
      | Some mp \<Rightarrow> Some (fst (generatedRange mp) + (off - fst (sourceRange mp))))"

text \<open>Modelled from the spec: the inverse translation of the range mapper.\<close>

definition toSourceOffset :: "Mapping list \<Rightarrow> nat \<Rightarrow> nat option" where
  "toSourceOffset ms off =
     (case List.find (\<lambda>mp. fst (generatedRange mp) \<le> off \<and> off \<le> snd (generatedRange mp)) ms of
        None \<Rightarrow> None
      | Some mp \<Rightarrow> Some (fst (sourceRange mp) + (off - fst (generatedRange mp))))"

text \<open>Modelled from the spec: \<open>toGeneratedPosition\<close> of the range mapper.\<close>

definition mapperToGeneratedPosition :: "SourceMapWithDocuments \<Rightarrow> Position \<Rightarrow> Position option" where
  "mapperToGeneratedPosition m p =
     map_option (positionAt (virtualFileDocument m))
       (toGeneratedOffset (mappings m) (offsetAt (sourceFileDocument m) p))"

text \<open>Modelled from the spec: \<open>toGeneratedRange\<close> of the range mapper; both endpoints
  of a range must resolve.\<close>

definition mapperToGeneratedRange :: "SourceMapWithDocuments \<Rightarrow> Range \<Rightarrow> Range option" where
  "mapperToGeneratedRange m r =
     (case (mapperToGeneratedPosition m (start r), mapperToGeneratedPosition m (endp r)) of
        (Some a, Some b) \<Rightarrow> Some \<lparr>start = a, endp = b\<rparr>
      | _ \<Rightarrow> None)"

text \<open>Modelled from the spec: \<open>toSourceRange\<close> of the range mapper, the inverse.\<close>

definition mapperToSourceRange :: "SourceMapWithDocuments \<Rightarrow> Range \<Rightarrow> Range option" where
  "mapperToSourceRange m r =
     (case (toSourceOffset (mappings m) (offsetAt (virtualFileDocument m) (start r)),
            toSourceOffset (mappings m) (offsetAt (virtualFileDocument m) (endp r))) of
        (Some a, Some b) \<Rightarrow>
          Some \<lparr>start = positionAt (sourceFileDocument m) a, endp = positionAt (sourceFileDocument m) b\<rparr>
      | _ \<Rightarrow> None)"

section \<open>Example worlds\<close>

text \<open>One outer document \<open>a.vue\<close> whose root file embeds one script file; a regeneration
  that keeps the mappings and gives the mappers of the file the new outer text.\<close>

definition exampleOptions :: FormattingOptions where
  "exampleOptions = \<lparr>tabSize = 2, insertSpaces = True\<rparr>"

definition outerUri :: string where
  "outerUri = ''file:///a.vue''"

definition embeddedUri :: string where
  "embeddedUri = ''file:///a.vue.js''"

definition embeddedFile :: "DocumentFormatting \<Rightarrow> VirtualFile" where
  "embeddedFile cap = VirtualFile ''/a.vue.js'' cap []"

definition rootFile :: "DocumentFormatting \<Rightarrow> VirtualFile" where
  "rootFile cap = VirtualFile ''/a.vue'' FormattingOff [embeddedFile cap]"

definition outerDocument :: "string \<Rightarrow> TextDocument" where
  "outerDocument t = \<lparr>uri = outerUri, languageId = ''vue'', version = 1, content = t\<rparr>"

definition embeddedDocument :: "string \<Rightarrow> TextDocument" where
  "embeddedDocument t = \<lparr>uri = embeddedUri, languageId = ''js'', version = 1, content = t\<rparr>"

definition keepMappers ::
  "string \<Rightarrow> string \<Rightarrow> (VirtualFile \<times> SourceMapWithDocuments) list \<Rightarrow>
   (VirtualFile \<times> SourceMapWithDocuments) list" where
  "keepMappers name snap objs =
     map (\<lambda>(f, m).
            if drop 7 (uri (sourceFileDocument m)) = name
            then (f, m\<lparr>sourceFileDocument := (sourceFileDocument m)\<lparr>content := snap\<rparr>\<rparr>)
            else (f, m))
       objs"

definition exampleContext :: "TextDocument \<Rightarrow> LanguageServicePlugin list \<Rightarrow> Context" where
  "exampleContext doc ps =
     \<lparr>getTextDocument = (\<lambda>u. if u = uri doc then Some doc else None),
      plugins = ps,
      getConfiguration = None,
      uriToFileName = drop 7,
      regenerate = keepMappers,
      toGeneratedPosition = mapperToGeneratedPosition,
      toGeneratedRange = mapperToGeneratedRange,
      toSourceRange = mapperToSourceRange\<rparr>"

text \<open>A provider that returns an empty edit list, and one that deletes the second
  character of a script document.\<close>

definition noEditsPlugin :: LanguageServicePlugin where
  "noEditsPlugin = \<lparr>format = Some (\<lambda>d r opts. Returns (Some [])), formatOnType = None\<rparr>"

definition squeezeEdit :: TextEdit where
  "squeezeEdit =
     \<lparr>edit_range = \<lparr>start = \<lparr>line = 0, character = 1\<rparr>, endp = \<lparr>line = 0, character = 2\<rparr>\<rparr>,
      newText = []\<rparr>"

definition squeezePlugin :: LanguageServicePlugin where
  "squeezePlugin =
     \<lparr>format = Some (\<lambda>d r opts. if languageId d = ''js'' then Returns (Some [squeezeEdit])
                                 else Returns None),
      formatOnType = None\<rparr>"

definition throwingPlugin :: LanguageServicePlugin where
  "throwingPlugin = \<lparr>format = Some (\<lambda>d r opts. Throws ''boom''), formatOnType = None\<rparr>"

text \<open>First world: the script \<open>c  d\<close> inside \<open>x{c  d}\<close>.\<close>

definition squeezeText :: string where
  "squeezeText = ''x{c  d}''"

definition squeezeMapper :: "string \<Rightarrow> SourceMapWithDocuments" where
  "squeezeMapper t =
     \<lparr>sourceFileDocument = outerDocument t,
      virtualFileDocument = embeddedDocument ''c  d'',
      mappings = [\<lparr>sourceRange = (2, 6), generatedRange = (0, 4)\<rparr>]\<rparr>"

definition squeezeRegistry :: "string \<Rightarrow> Registry" where
  "squeezeRegistry t =
     \<lparr>sources = [(''/a.vue'', \<lparr>snapshot = t, root = rootFile FormattingOn\<rparr>)],
      mapObjects = [(embeddedFile FormattingOn, squeezeMapper t)]\<rparr>"

definition squeezeContext :: Context where
  "squeezeContext = exampleContext (outerDocument squeezeText) [throwingPlugin, squeezePlugin]"

definition squeezeFinalState :: FormatState where
  "squeezeFinalState =
     \<lparr>document = \<lparr>uri = outerUri, languageId = ''vue'', version = 2, content = ''x{c d}''\<rparr>,
      edited = True,
      registry = squeezeRegistry ''x{c d}'',
      console = [''boom'']\<rparr>"

text \<open>Second world: two mappings, \<open>a\nb\<close> and \<open>c\<close>, of \<open>{a\nb} {c}\<close>, for a file that
  wants a first newline.\<close>

definition reorderText :: string where
  "reorderText = ''{a'' @ [LF] @ ''b} {c}''"

definition reorderMapper :: "Mapping list \<Rightarrow> SourceMapWithDocuments" where
  "reorderMapper ms =
     \<lparr>sourceFileDocument = outerDocument reorderText,
      virtualFileDocument = embeddedDocument (''a'' @ [LF] @ ''bc''),
      mappings = ms\<rparr>"

definition reorderFirst :: Mapping where
  "reorderFirst = \<lparr>sourceRange = (1, 4), generatedRange = (0, 3)\<rparr>"

definition reorderSecond :: Mapping where
  "reorderSecond = \<lparr>sourceRange = (7, 8), generatedRange = (3, 4)\<rparr>"

definition reorderRegistry :: "Mapping list \<Rightarrow> Registry" where
  "reorderRegistry ms =
     \<lparr>sources = [(''/a.vue'', \<lparr>snapshot = reorderText, root = rootFile (FormattingWith True False)\<rparr>)],
      mapObjects = [(embeddedFile (FormattingWith True False), reorderMapper ms)]\<rparr>"

definition reorderContext :: Context where
  "reorderContext = exampleContext (outerDocument reorderText) [noEditsPlugin]"

definition reorderSqueezeContext :: Context where
  "reorderSqueezeContext = exampleContext (outerDocument reorderText) [squeezePlugin]"

text \<open>Third world: the script file has a mapper against \<open>a.vue\<close> and one against another
  outer document, \<open>b.vue\<close>.\<close>

definition strayText :: string where
  "strayText = ''{c}'' @ [LF] @ ''  x'' @ [LF] @ ''y''"

definition otherDocument :: TextDocument where
  "otherDocument =
     \<lparr>uri = ''file:///b.vue'', languageId = ''vue'', version = 1, content = ''123456{c}9''\<rparr>"

definition ownMapper :: SourceMapWithDocuments where
  "ownMapper =
     \<lparr>sourceFileDocument = outerDocument strayText,
      virtualFileDocument = embeddedDocument ''c'',
      mappings = [\<lparr>sourceRange = (1, 2), generatedRange = (0, 1)\<rparr>]\<rparr>"

definition strayMapper :: SourceMapWithDocuments where
  "strayMapper =
     \<lparr>sourceFileDocument = otherDocument,
      virtualFileDocument = embeddedDocument ''c'',
      mappings = [\<lparr>sourceRange = (6, 9), generatedRange = (0, 3)\<rparr>]\<rparr>"

definition strayRegistry :: "(VirtualFile \<times> SourceMapWithDocuments) list \<Rightarrow> Registry" where
  "strayRegistry objs =
     \<lparr>sources = [(''/a.vue'', \<lparr>snapshot = strayText, root = rootFile FormattingOn\<rparr>)],
      mapObjects = objs\<rparr>"

definition strayContext :: Context where
  "strayContext = exampleContext (outerDocument strayText) [noEditsPlugin]"

text \<open>Fourth world: a range that is not the whole document but encloses the one mapping
  of \<open>abc{d}efg\<close>.\<close>

definition partText :: string where
  "partText = ''abc{d}efg''"

definition partMapper :: SourceMapWithDocuments where
  "partMapper =
     \<lparr>sourceFileDocument = outerDocument partText,
      virtualFileDocument = embeddedDocument ''d'',
      mappings = [\<lparr>sourceRange = (4, 5), generatedRange = (0, 1)\<rparr>]\<rparr>"

definition partRange :: Range where
  "partRange = \<lparr>start = \<lparr>line = 0, character = 1\<rparr>, endp = \<lparr>line = 0, character = 8\<rparr>\<rparr>"

definition partRegistry :: Registry where
  "partRegistry =
     \<lparr>sources = [(''/a.vue'', \<lparr>snapshot = partText, root = rootFile FormattingOn\<rparr>)],
      mapObjects = [(embeddedFile FormattingOn, partMapper)]\<rparr>"

definition partContext :: Context where
  "partContext = exampleContext (outerDocument partText) [noEditsPlugin]"

text \<open>The source range of the first mapping of the second world: a range that maps
  directly.\<close>

definition directRange :: Range where
  "directRange = \<lparr>start = \<lparr>line = 0, character = 1\<rparr>, endp = \<lparr>line = 1, character = 1\<rparr>\<rparr>"

text \<open>Three edits of the script \<open>a\nbc\<close>; the second lies outside the mapping
  \<open>reorderFirst\<close>.\<close>

definition insideEdit :: TextEdit where
  "insideEdit =
     \<lparr>edit_range = \<lparr>start = \<lparr>line = 0, character = 0\<rparr>, endp = \<lparr>line = 0, character = 1\<rparr>\<rparr>,
      newText = ''A''\<rparr>"

definition outsideEdit :: TextEdit where
  "outsideEdit =
     \<lparr>edit_range = \<lparr>start = \<lparr>line = 1, character = 2\<rparr>, endp = \<lparr>line = 1, character = 2\<rparr>\<rparr>,
      newText = ''!''\<rparr>"

definition laterEdit :: TextEdit where
  "laterEdit =
     \<lparr>edit_range = \<lparr>start = \<lparr>line = 1, character = 0\<rparr>, endp = \<lparr>line = 1, character = 1\<rparr>\<rparr>,
      newText = ''B''\<rparr>"

section \<open>The fallback range as the specification words it\<close>

text \<open>The mapping with the smallest source start and the one with the largest source
  start; among several with that start, the first of the array.\<close>

fun firstWithSmallestStart :: "Mapping list \<Rightarrow> Mapping option" where
  "firstWithSmallestStart [] = None"
| "firstWithSmallestStart (x # xs) =
     (case firstWithSmallestStart xs of
        None \<Rightarrow> Some x
      | Some y \<Rightarrow> if fst (sourceRange y) < fst (sourceRange x) then Some y else Some x)"

fun firstWithLargestStart :: "Mapping list \<Rightarrow> Mapping option" where
  "firstWithLargestStart [] = None"
| "firstWithLargestStart (x # xs) =
     (case firstWithLargestStart xs of
        None \<Rightarrow> Some x
      | Some y \<Rightarrow> if fst (sourceRange x) < fst (sourceRange y) then Some y else Some x)"

text \<open>The requested range starts strictly before the smallest source start and ends strictly
  after the source end of the mapping with the largest source start: the generated range
  runs from the generated start of the former to the generated end of the latter.\<close>

definition enclosingFallback_spec :: "TextDocument \<Rightarrow> Range \<Rightarrow> SourceMapWithDocuments \<Rightarrow> Range option" where
  "enclosingFallback_spec doc requestRange m =
     (case (firstWithSmallestStart (mappings m), firstWithLargestStart (mappings m)) of
        (Some firstMapping, Some lastMapping) \<Rightarrow>
          if offsetAt doc (start requestRange) < fst (sourceRange firstMapping)
             \<and> snd (sourceRange lastMapping) < offsetAt doc (endp requestRange)
          then Some \<lparr>start = positionAt (virtualFileDocument m) (fst (generatedRange firstMapping)),
                     endp = positionAt (virtualFileDocument m) (snd (generatedRange lastMapping))\<rparr>
          else None
      | _ \<Rightarrow> None)"

text \<open>\<^verbatim>\<open>array[0]\<close>, undefined for an empty array.\<close>

definition headOf :: "'a list \<Rightarrow> 'a option" where
  "headOf xs = (case xs of [] \<Rightarrow> None | x # _ \<Rightarrow> Some x)"

section \<open>The overlay invariant\<close>

text \<open>While a request runs, the working document keeps its URI, and the sources of the
  registry are the original ones, but for the snapshot of the document's file once a
  batch has been applied: it is the text of the working document.\<close>

definition overlayInvariant :: "Context \<Rightarrow> TextDocument \<Rightarrow> Source \<Rightarrow> Registry \<Rightarrow> FormatState \<Rightarrow> bool" where
  "overlayInvariant ctx doc src reg st =
     (uri (document st) = uri doc \<and>
      sources (registry st) =
        (if edited st
         then AList.update (uriToFileName ctx (uri doc)) (src\<lparr>snapshot := content (document st)\<rparr>)
                (sources reg)
         else sources reg))"

section \<open>Properties\<close>

subsection \<open>Auxiliary facts\<close>

lemma tryFormatLoop_eq:
  "tryFormatLoop ps options doc fr ch warnings =
     (dispatchResult_spec (map (\<lambda>p. callPlugin p options doc fr ch) ps),
      warnings @ dispatchLogged_spec (map (\<lambda>p. callPlugin p options doc fr ch) ps))"
proof (induction ps arbitrary: warnings)
  case Nil
  then show ?case
    by (simp add: dispatchResult_spec_def dispatchLogged_spec_def List.map_filter_simps)
next
  case (Cons p rest)
  show ?case
  proof (cases "callPlugin p options doc fr ch")
    case (Throws err)
    then show ?thesis
      using Cons [of "warnings @ [err]"]
      by (simp add: dispatchResult_spec_def dispatchLogged_spec_def hasOpinion_def
            List.map_filter_simps)
  next
    case (Returns r)
    then show ?thesis
      using Cons [of warnings]
      by (cases r)
         (simp_all add: dispatchResult_spec_def dispatchLogged_spec_def hasOpinion_def
            List.map_filter_simps)
  qed
qed

lemma wholeDocumentRange_offsets:
  "offsetAt doc (start (wholeDocumentRange doc)) = 0 \<and>
   offsetAt doc (endp (wholeDocumentRange doc)) = length (content doc)"
  by (simp add: wholeDocumentRange_def offsetAt_positionAt)

lemma levelLoop_level:
  "levelLoop ctx options rr otp iil rt lv st = Inr (st', lvl) \<Longrightarrow> lv \<le> Suc (treeDepth rt) \<Longrightarrow>
   lvl = treeDepth rt + 2"
proof (induction ctx options rr otp iil rt lv st rule: levelLoop.induct)
  case (1 ctx options rr otp iil rt lv st)
  show ?case
  proof (cases "getEmbeddedFilesByLevel rt lv = []")
    case True
    then have "treeDepth rt < lv" by (simp add: level_empty_iff)
    moreover have "lvl = lv + 1"
      using "1.prems"(1) True by (subst (asm) levelLoop.simps) simp
    ultimately show ?thesis using "1.prems"(2) by simp
  next
    case False
    then have le: "lv \<le> treeDepth rt" by (simp add: level_empty_iff)
    obtain st2 where
      pl: "processLevel ctx options rr otp iil (lv + 1) (getEmbeddedFilesByLevel rt lv) st = Inr st2"
      and rec: "levelLoop ctx options rr otp iil rt (lv + 1) st2 = Inr (st', lvl)"
      using "1.prems"(1) False
      by (subst (asm) levelLoop.simps) (auto split: sum.splits)
    show ?thesis
      using "1.IH" [OF False pl rec] le by simp
  qed
qed

lemma insertBy_not_Nil: "insertBy cmp x ys \<noteq> []"
  by (cases ys) auto

lemma headOf_insertBy:
  "headOf (insertBy cmp x ys) =
     (case headOf ys of None \<Rightarrow> Some x | Some y \<Rightarrow> if cmp x y \<le> 0 then Some x else Some y)"
  by (cases ys) (auto simp: headOf_def)

lemma ascending_le:
  "bySourceStartAscending x y \<le> 0 \<longleftrightarrow> fst (sourceRange x) \<le> fst (sourceRange y)"
  by (simp add: bySourceStartAscending_def)

lemma descending_le:
  "bySourceStartDescending x y \<le> 0 \<longleftrightarrow> fst (sourceRange y) \<le> fst (sourceRange x)"
  by (simp add: bySourceStartDescending_def)

lemma head_sort_ascending:
  "headOf (sortBy bySourceStartAscending ms) = firstWithSmallestStart ms"
proof (induction ms)
  case Nil
  then show ?case by (simp add: headOf_def)
next
  case (Cons x xs)
  then show ?case
    by (auto simp: headOf_insertBy ascending_le split: option.splits)
qed

lemma head_sort_descending:
  "headOf (sortBy bySourceStartDescending ms) = firstWithLargestStart ms"
proof (induction ms)
  case Nil
  then show ?case by (simp add: headOf_def)
next
  case (Cons x xs)
  then show ?case
    by (auto simp: headOf_insertBy descending_le split: option.splits)
qed

lemma largest_insert_ascending:
  "firstWithLargestStart (insertBy bySourceStartAscending x ys) = firstWithLargestStart (x # ys)"
proof (induction ys)
  case Nil
  then show ?case by simp
next
  case (Cons y ys)
  show ?case
  proof (cases "bySourceStartAscending x y \<le> 0")
    case True
    then show ?thesis by simp
  next
    case False
    then have lt: "fst (sourceRange y) < fst (sourceRange x)" by (simp add: ascending_le)
    have "firstWithLargestStart (insertBy bySourceStartAscending x (y # ys))
          = firstWithLargestStart (y # insertBy bySourceStartAscending x ys)"
      using False by simp
    also have "\<dots> = firstWithLargestStart (x # y # ys)"
      using Cons.IH lt by (auto split: option.splits)
    finally show ?thesis .
  qed
qed

lemma largest_sort_ascending:
  "firstWithLargestStart (sortBy bySourceStartAscending ms) = firstWithLargestStart ms"
proof (induction ms)
  case Nil
  then show ?case by simp
next
  case (Cons x xs)
  have "firstWithLargestStart (sortBy bySourceStartAscending (x # xs))
        = firstWithLargestStart (x # sortBy bySourceStartAscending xs)"
    by (simp add: largest_insert_ascending)
  then show ?case using Cons.IH by simp
qed

lemma firstWithSmallestStart_least:
  "firstWithSmallestStart ms = Some f \<Longrightarrow>
   f \<in> set ms \<and> (\<forall>x \<in> set ms. fst (sourceRange f) \<le> fst (sourceRange x))"
proof (induction ms arbitrary: f)
  case Nil
  then show ?case by simp
next
  case (Cons a ms)
  show ?case
  proof (cases "firstWithSmallestStart ms")
    case None
    then have "ms = []" by (cases ms) (auto split: option.splits if_splits)
    then show ?thesis using Cons.prems by simp
  next
    case (Some y)
    note ih = Cons.IH [OF Some]
    show ?thesis
    proof (cases "fst (sourceRange y) < fst (sourceRange a)")
      case True
      then have "f = y" using Cons.prems Some by simp
      then show ?thesis using ih True by auto
    next
      case False
      then have "f = a" using Cons.prems Some by simp
      then show ?thesis using ih False by fastforce
    qed
  qed
qed

lemma firstWithLargestStart_greatest:
  "firstWithLargestStart ms = Some l \<Longrightarrow>
   l \<in> set ms \<and> (\<forall>x \<in> set ms. fst (sourceRange x) \<le> fst (sourceRange l))"
proof (induction ms arbitrary: l)
  case Nil
  then show ?case by simp
next
  case (Cons a ms)
  show ?case
  proof (cases "firstWithLargestStart ms")
    case None
    then have "ms = []" by (cases ms) (auto split: option.splits if_splits)
    then show ?thesis using Cons.prems by simp
  next
    case (Some y)
    note ih = Cons.IH [OF Some]
    show ?thesis
    proof (cases "fst (sourceRange a) < fst (sourceRange y)")
      case True
      then have "l = y" using Cons.prems Some by simp
      then show ?thesis using ih True by auto
    next
      case False
      then have "l = a" using Cons.prems Some by simp
      then show ?thesis using ih False by fastforce
    qed
  qed
qed

lemma fallbackRange_spec:
  "fst (fallbackRange doc rr m) = enclosingFallback_spec doc rr m"
proof -
  have a: "(case sortBy bySourceStartAscending (mappings m) of [] \<Rightarrow> None | x # _ \<Rightarrow> Some x)
           = firstWithSmallestStart (mappings m)"
    using head_sort_ascending [of "mappings m"] by (simp add: headOf_def)
  have b: "(case sortBy bySourceStartDescending (sortBy bySourceStartAscending (mappings m)) of
              [] \<Rightarrow> None | x # _ \<Rightarrow> Some x) = firstWithLargestStart (mappings m)"
    using head_sort_descending [of "sortBy bySourceStartAscending (mappings m)"]
    by (simp add: headOf_def largest_sort_ascending)
  show ?thesis
    unfolding fallbackRange_def Let_def a b enclosingFallback_spec_def
    by (auto split: option.splits)
qed

text \<open>The sorts keep the mappings and leave them in descending order of source start.\<close>

lemma set_insertBy: "set (insertBy cmp x ys) = insert x (set ys)"
  by (induction ys) auto

lemma set_sortBy: "set (sortBy cmp xs) = set xs"
  by (induction xs) (simp_all add: set_insertBy)

lemma length_insertBy: "length (insertBy cmp x ys) = Suc (length ys)"
  by (induction ys) auto

lemma length_sortBy: "length (sortBy cmp xs) = length xs"
  by (induction xs) (simp_all add: length_insertBy)

lemma descending_insertBy:
  "sorted_wrt (\<lambda>a b. fst (sourceRange b) \<le> fst (sourceRange a)) ys \<Longrightarrow>
   sorted_wrt (\<lambda>a b. fst (sourceRange b) \<le> fst (sourceRange a))
     (insertBy bySourceStartDescending x ys)"
proof (induction ys)
  case Nil
  then show ?case by simp
next
  case (Cons y ys)
  show ?case
  proof (cases "bySourceStartDescending x y \<le> 0")
    case True
    then have "fst (sourceRange y) \<le> fst (sourceRange x)" by (simp add: descending_le)
    then show ?thesis using True Cons.prems by fastforce
  next
    case False
    then have "fst (sourceRange x) \<le> fst (sourceRange y)" by (simp add: descending_le)
    then show ?thesis using False Cons by (auto simp: set_insertBy)
  qed
qed

lemma descending_sortBy:
  "sorted_wrt (\<lambda>a b. fst (sourceRange b) \<le> fst (sourceRange a)) (sortBy bySourceStartDescending ms)"
  by (induction ms) (simp_all add: descending_insertBy)

lemma fallbackRange_leaves_descending:
  "sorted_wrt (\<lambda>a b. fst (sourceRange b) \<le> fst (sourceRange a))
     (mappings (snd (fallbackRange doc rr m))) \<and>
   set (mappings (snd (fallbackRange doc rr m))) = set (mappings m) \<and>
   length (mappings (snd (fallbackRange doc rr m))) = length (mappings m)"
  by (simp add: fallbackRange_def Let_def descending_sortBy set_sortBy length_sortBy)

lemma formatOverRange_frame:
  "formatOverRange ctx options m r (es, us, st) = (es', us', st') \<Longrightarrow>
   document st' = document st \<and> edited st' = edited st \<and> registry st' = registry st"
  by (auto simp: formatOverRange_def split: prod.splits option.splits)

lemma formatOnTypeAt_frame:
  "formatOnTypeAt ctx options m p ch (es, us, st) = (es', us', st') \<Longrightarrow>
   document st' = document st \<and> edited st' = edited st \<and> registry st' = registry st"
  by (auto simp: formatOnTypeAt_def split: prod.splits option.splits)

lemma storeMapper_frame:
  "document (storeMapper a f m st) = document st \<and> edited (storeMapper a f m st) = edited st \<and>
   sources (registry (storeMapper a f m st)) = sources (registry st)"
  by (simp add: storeMapper_def)

lemma processEmbedded_frame:
  assumes "processEmbedded ctx options rr otp embedded (es, us, st) = (es', us', st')"
  shows "document st' = document st \<and> edited st' = edited st \<and>
         sources (registry st') = sources (registry st)"
proof (cases "documentFormatting embedded = FormattingOff")
  case True
  then show ?thesis using assms by (simp add: processEmbedded_def)
next
  case False
  show ?thesis
  proof (cases "List.find (\<lambda>(a, f, m). uri (sourceFileDocument m) = uri (document st))
                  (getMapsByVirtualFileName (registry st) (fileName embedded))")
    case None
    then show ?thesis using assms False by (simp add: processEmbedded_def)
  next
    case (Some afm)
    obtain a f m where afm: "afm = (a, f, m)" by (cases afm) auto
    show ?thesis
    proof (cases otp)
      case onType: (Some cp)
      obtain ch p where cp: "cp = (ch, p)" by (cases cp) auto
      show ?thesis
      proof (cases "toGeneratedPosition ctx m p")
        case None
        then show ?thesis
          using assms False Some afm onType cp by (simp add: processEmbedded_def)
      next
        case (Some ep)
        then have "formatOnTypeAt ctx options m ep ch (es, us, st) = (es', us', st')"
          using assms False \<open>List.find _ _ = Some afm\<close> afm onType cp
          by (simp add: processEmbedded_def)
        then show ?thesis using formatOnTypeAt_frame by fastforce
      qed
    next
      case None
      obtain vr m1 where v: "virtualCodeRangeOf ctx (document st) rr m = (vr, m1)"
        by (cases "virtualCodeRangeOf ctx (document st) rr m") auto
      show ?thesis
      proof (cases vr)
        case vnone: None
        then have "st' = storeMapper a f m1 st"
          using assms False Some afm None v by (simp add: processEmbedded_def)
        then show ?thesis by (simp add: storeMapper_frame)
      next
        case (Some r)
        then have "formatOverRange ctx options m1 r (es, us, storeMapper a f m1 st) = (es', us', st')"
          using assms False \<open>List.find _ _ = Some afm\<close> afm None v
          by (simp add: processEmbedded_def)
        then have "document st' = document (storeMapper a f m1 st) \<and>
                   edited st' = edited (storeMapper a f m1 st) \<and>
                   registry st' = registry (storeMapper a f m1 st)"
          by (rule formatOverRange_frame)
        then show ?thesis by (simp add: storeMapper_frame)
      qed
    qed
  qed
qed

lemma processEmbedded_invariant:
  assumes "processEmbedded ctx options rr otp embedded (es, us, st) = (es', us', st')"
    and "overlayInvariant ctx doc src reg st"
  shows "overlayInvariant ctx doc src reg st'"
  using processEmbedded_frame [OF assms(1)] assms(2) by (simp add: overlayInvariant_def)

lemma foldl_processEmbedded_invariant:
  assumes "foldl (\<lambda>acc embedded. processEmbedded ctx options rr otp embedded acc) (es, us, st) files
             = (es', us', st')"
    and "overlayInvariant ctx doc src reg st"
  shows "overlayInvariant ctx doc src reg st'"
  using assms
proof (induction files arbitrary: es us st)
  case Nil
  then show ?case by simp
next
  case (Cons x xs)
  obtain e1 u1 s1 where step: "processEmbedded ctx options rr otp x (es, us, st) = (e1, u1, s1)"
    by (cases "processEmbedded ctx options rr otp x (es, us, st)") auto
  have "overlayInvariant ctx doc src reg s1"
    using processEmbedded_invariant [OF step Cons.prems(2)] .
  moreover have "foldl (\<lambda>acc embedded. processEmbedded ctx options rr otp embedded acc) (e1, u1, s1) xs
                   = (es', us', st')"
    using Cons.prems(1) step by simp
  ultimately show ?case using Cons.IH by blast
qed

lemma applyBatch_invariant:
  assumes "applyBatch ctx es st = Inr st'"
    and "overlayInvariant ctx doc src reg st"
    and "map_of (sources reg) (uriToFileName ctx (uri doc)) = Some src"
  shows "overlayInvariant ctx doc src reg st'"
proof (cases "es = []")
  case True
  then show ?thesis using assms by (simp add: applyBatch_def)
next
  case False
  then obtain ntext where ae: "applyEdits (document st) es = Inr ntext"
    using assms(1) by (auto simp: applyBatch_def split: sum.splits)
  let ?fn = "uriToFileName ctx (uri doc)"
  have st': "st' = st\<lparr>document := \<lparr>uri = uri (document st), languageId = languageId (document st),
                          version = version (document st) + 1, content = ntext\<rparr>,
                        registry := updateSource ctx ?fn ntext (registry st),
                        edited := True\<rparr>"
    using assms(1,2) False ae by (auto simp: applyBatch_def Let_def overlayInvariant_def)
  have cur: "\<exists>s. map_of (sources (registry st)) ?fn = Some (src\<lparr>snapshot := s\<rparr>)
             \<and> sources (registry st) = AList.update ?fn (src\<lparr>snapshot := s\<rparr>) (sources reg)"
  proof (cases "edited st")
    case True
    then show ?thesis using assms(2) by (auto simp: overlayInvariant_def update_conv')
  next
    case False
    have "src\<lparr>snapshot := snapshot src\<rparr> = src" by simp
    then show ?thesis
      using False assms(2,3) update_triv [OF assms(3)]
      by (metis overlayInvariant_def)
  qed
  then obtain s where s: "map_of (sources (registry st)) ?fn = Some (src\<lparr>snapshot := s\<rparr>)"
    "sources (registry st) = AList.update ?fn (src\<lparr>snapshot := s\<rparr>) (sources reg)" by blast
  have "sources (updateSource ctx ?fn ntext (registry st)) = AList.update ?fn (src\<lparr>snapshot := ntext\<rparr>) (sources reg)"
    using s by (simp add: updateSource_def)
  then show ?thesis using assms(2) by (simp add: st' overlayInvariant_def)
qed

lemma patchMaps_invariant:
  assumes "patchMaps ctx iil bi ms st = Inr st'"
    and "overlayInvariant ctx doc src reg st"
    and "map_of (sources reg) (uriToFileName ctx (uri doc)) = Some src"
  shows "overlayInvariant ctx doc src reg st'"
  using assms
proof (induction ctx iil bi ms st rule: patchMaps.induct)
  case (1 ctx iil bi st)
  then show ?case by simp
next
  case (2 ctx iil bi a fl m rest st)
  obtain s1 where ab: "applyBatch ctx
             (patchInterpolationIndent (document st) (mappings m)
                (if iil (languageId (virtualFileDocument m)) then bi else [])
                (documentFormatting fl)) st = Inr s1"
    and rec: "patchMaps ctx iil bi rest s1 = Inr st'"
    using "2.prems"(1) by (auto split: sum.splits)
  have "overlayInvariant ctx doc src reg s1"
    using applyBatch_invariant [OF ab "2.prems"(2,3)] .
  then show ?case using "2.IH" [OF ab rec] "2.prems"(3) by simp
qed

lemma patchUris_invariant:
  assumes "patchUris ctx iil bi us st = Inr st'"
    and "overlayInvariant ctx doc src reg st"
    and "map_of (sources reg) (uriToFileName ctx (uri doc)) = Some src"
  shows "overlayInvariant ctx doc src reg st'"
  using assms
proof (induction ctx iil bi us st rule: patchUris.induct)
  case (1 ctx iil bi st)
  then show ?case by simp
next
  case (2 ctx iil bi u rest st)
  obtain s1 where pm: "patchMaps ctx iil bi (getMapsByVirtualFileUri (registry st) u) st = Inr s1"
    and rec: "patchUris ctx iil bi rest s1 = Inr st'"
    using "2.prems"(1) by (auto split: sum.splits)
  have "overlayInvariant ctx doc src reg s1"
    using patchMaps_invariant [OF pm "2.prems"(2,3)] .
  then show ?case using "2.IH" [OF pm rec] "2.prems"(3) by simp
qed

lemma processLevel_invariant:
  assumes "processLevel ctx options rr otp iil lv files st = Inr st'"
    and "overlayInvariant ctx doc src reg st"
    and "map_of (sources reg) (uriToFileName ctx (uri doc)) = Some src"
  shows "overlayInvariant ctx doc src reg st'"
proof -
  obtain es us s1 where fl:
    "foldl (\<lambda>acc embedded. processEmbedded ctx options rr otp embedded acc) ([], [], st) files = (es, us, s1)"
    by (cases "foldl (\<lambda>acc embedded. processEmbedded ctx options rr otp embedded acc) ([], [], st) files") auto
  have i1: "overlayInvariant ctx doc src reg s1"
    using foldl_processEmbedded_invariant [OF fl assms(2)] .
  obtain s2 where ab: "applyBatch ctx es s1 = Inr s2"
    and tail: "(if lv > 1 then patchUris ctx iil (baseIndentOf options) us s2 else Inr s2) = Inr st'"
    using assms(1) fl by (auto simp: processLevel_def split: sum.splits)
  have i2: "overlayInvariant ctx doc src reg s2"
    using applyBatch_invariant [OF ab i1 assms(3)] .
  show ?thesis
  proof (cases "lv > 1")
    case True
    then show ?thesis using tail patchUris_invariant [OF _ i2 assms(3)] by simp
  next
    case False
    then show ?thesis using tail i2 by simp
  qed
qed

lemma levelLoop_invariant:
  assumes "levelLoop ctx options rr otp iil rt lv st = Inr (st', lvl)"
    and "overlayInvariant ctx doc src reg st"
    and "map_of (sources reg) (uriToFileName ctx (uri doc)) = Some src"
  shows "overlayInvariant ctx doc src reg st'"
  using assms
proof (induction ctx options rr otp iil rt lv st rule: levelLoop.induct)
  case (1 ctx options rr otp iil rt lv st)
  show ?case
  proof (cases "getEmbeddedFilesByLevel rt lv = []")
    case True
    then have "st' = st" using "1.prems"(1) by (subst (asm) levelLoop.simps) simp
    then show ?thesis using "1.prems"(2) by simp
  next
    case False
    obtain st2 where
      pl: "processLevel ctx options rr otp iil (lv + 1) (getEmbeddedFilesByLevel rt lv) st = Inr st2"
      and rec: "levelLoop ctx options rr otp iil rt (lv + 1) st2 = Inr (st', lvl)"
      using "1.prems"(1) False
      by (subst (asm) levelLoop.simps) (auto split: sum.splits)
    have "overlayInvariant ctx doc src reg st2"
      using processLevel_invariant [OF pl "1.prems"(2,3)] .
    then show ?thesis using "1.IH" [OF False pl rec] "1.prems"(3) by simp
  qed
qed

lemma restore_sources:
  assumes "overlayInvariant ctx doc src reg st"
    and "map_of (sources reg) (uriToFileName ctx (uri doc)) = Some src"
  shows "sources (if edited st
                  then updateSource ctx (uriToFileName ctx (uri (document st))) (snapshot src) (registry st)
                  else registry st) = sources reg"
proof (cases "edited st")
  case False
  then show ?thesis using assms(1) by (simp add: overlayInvariant_def)
next
  case True
  let ?fn = "uriToFileName ctx (uri doc)"
  have u: "uri (document st) = uri doc" using assms(1) by (simp add: overlayInvariant_def)
  have s: "sources (registry st) = AList.update ?fn (src\<lparr>snapshot := content (document st)\<rparr>) (sources reg)"
    using assms(1) True by (simp add: overlayInvariant_def)
  have "sources (updateSource ctx ?fn (snapshot src) (registry st)) = AList.update ?fn src (sources reg)"
    by (simp add: updateSource_def s update_conv')
  also have "\<dots> = sources reg" using update_triv [OF assms(2)] .
  finally show ?thesis using True u by simp
qed

subsection \<open>A run of the first world\<close>

lemma squeeze_document: "getTextDocument squeezeContext outerUri = Some (outerDocument squeezeText)"
  by (simp add: squeezeContext_def exampleContext_def outerDocument_def)

lemma squeeze_source:
  "getSourceByUri squeezeContext (squeezeRegistry squeezeText) (uri (outerDocument squeezeText))
   = Some \<lparr>snapshot = squeezeText, root = rootFile FormattingOn\<rparr>"
  by code_simp

lemma squeeze_run:
  "levelLoop squeezeContext exampleOptions (requestRangeOf (outerDocument squeezeText) None) None
     (initialIndentLanguageIdOf squeezeContext) (rootFile FormattingOn) 0
     (initialState (outerDocument squeezeText) (squeezeRegistry squeezeText))
   = Inr (squeezeFinalState, 3)"
  by code_simp

subsection \<open>The claims on the request\<close>

text \<open>
  Claim C1. For every format request on a document that has an embedding tree, once the
  level loop has reached its terminal empty level (it returned the state \<open>st\<close>): if the
  accumulated text equals the text the request started from, nothing is returned (an
  absent result, not an empty list); otherwise exactly one replace edit is returned, whose
  range runs from offset 0 to the length of the original document and whose new text is
  the accumulated text.
\<close>

theorem format_result:
  assumes "getTextDocument ctx u = Some doc"
    and "getSourceByUri ctx reg (uri doc) = Some source"
    and "levelLoop ctx options (requestRangeOf doc range0) onTypeParams
           (initialIndentLanguageIdOf ctx) (root source) 0 (initialState doc reg) = Inr (st, lvl)"
  shows "fst (register ctx u options range0 onTypeParams reg) =
           (if content (document st) = content doc then Returned None
            else Returned (Some [\<lparr>edit_range = wholeDocumentRange doc,
                                   newText = content (document st)\<rparr>])) \<and>
         offsetAt doc (start (wholeDocumentRange doc)) = 0 \<and>
         offsetAt doc (endp (wholeDocumentRange doc)) = length (content doc)"
  using assms by (simp add: register_def Let_def wholeDocumentRange_offsets)


text \<open>The first world: the provider's deletion becomes one whole-document edit.\<close>

theorem format_result_witness:
  "fst (register squeezeContext outerUri exampleOptions None None (squeezeRegistry squeezeText)) =
     Returned (Some [\<lparr>edit_range = wholeDocumentRange (outerDocument squeezeText),
                       newText = ''x{c d}''\<rparr>]) \<and>
   offsetAt (outerDocument squeezeText) (start (wholeDocumentRange (outerDocument squeezeText))) = 0 \<and>
   offsetAt (outerDocument squeezeText) (endp (wholeDocumentRange (outerDocument squeezeText))) = 7"
proof -
  have run: "levelLoop squeezeContext exampleOptions (requestRangeOf (outerDocument squeezeText) None) None
     (initialIndentLanguageIdOf squeezeContext)
     (root \<lparr>snapshot = squeezeText, root = rootFile FormattingOn\<rparr>) 0
     (initialState (outerDocument squeezeText) (squeezeRegistry squeezeText))
   = Inr (squeezeFinalState, 3)"
    using squeeze_run by simp
  show ?thesis
    using format_result [OF squeeze_document squeeze_source run]
    by (simp add: squeezeFinalState_def outerDocument_def squeezeText_def)
qed

text \<open>
  Claim C2. Whenever a format request returns, on any of its return paths and whatever the
  number of batches applied on the way, the sources of the registry, and with them the
  persisted snapshot of the document, are those from before the request.
\<close>

theorem overlay_restored:
  assumes "fst (register ctx u options range0 onTypeParams reg) = Returned res"
  shows "sources (fst (snd (register ctx u options range0 onTypeParams reg))) = sources reg \<and>
         getSourceByUri ctx (fst (snd (register ctx u options range0 onTypeParams reg))) v
           = getSourceByUri ctx reg v"
proof -
  have "sources (fst (snd (register ctx u options range0 onTypeParams reg))) = sources reg"
  proof (cases "getTextDocument ctx u")
    case None
    then show ?thesis by (simp add: register_def)
  next
    case (Some doc)
    show ?thesis
    proof (cases "getSourceByUri ctx reg (uri doc)")
      case None
      then show ?thesis using Some by (simp add: register_def split: prod.splits option.splits)
    next
      case src: (Some source)
      have m: "map_of (sources reg) (uriToFileName ctx (uri doc)) = Some source"
        using src by (simp add: getSourceByUri_def)
      have i0: "overlayInvariant ctx doc source reg (initialState doc reg)"
        by (simp add: overlayInvariant_def initialState_def)
      show ?thesis
      proof (cases "levelLoop ctx options (requestRangeOf doc range0) onTypeParams
                      (initialIndentLanguageIdOf ctx) (root source) 0 (initialState doc reg)")
        case (Inl e)
        then show ?thesis using assms Some src by (simp add: register_def split: prod.splits)
      next
        case (Inr r)
        obtain st lvl where r: "r = (st, lvl)" by (cases r) auto
        have inv: "overlayInvariant ctx doc source reg st"
          using levelLoop_invariant [OF Inr [unfolded r] i0 m] .
        show ?thesis
          using Some src Inr r restore_sources [OF inv m]
          by (simp add: register_def Let_def)
      qed
    qed
  qed
  then show ?thesis by (simp add: getSourceByUri_def)
qed

text \<open>The first world: a batch was applied and pushed into the overlay (the state at the
  end of the level loop holds the new text as snapshot), and the request leaves the
  sources as they were.\<close>

theorem overlay_restored_witness:
  "sources (fst (snd (register squeezeContext outerUri exampleOptions None None
                        (squeezeRegistry squeezeText))))
     = sources (squeezeRegistry squeezeText) \<and>
   getSourceByUri squeezeContext
       (fst (snd (register squeezeContext outerUri exampleOptions None None
                    (squeezeRegistry squeezeText)))) outerUri
     = Some \<lparr>snapshot = squeezeText, root = rootFile FormattingOn\<rparr> \<and>
   edited squeezeFinalState \<and>
   getSourceByUri squeezeContext (registry squeezeFinalState) outerUri
     = Some \<lparr>snapshot = ''x{c d}'', root = rootFile FormattingOn\<rparr>"
proof -
  have r: "fst (register squeezeContext outerUri exampleOptions None None (squeezeRegistry squeezeText)) =
     Returned (Some [\<lparr>edit_range = \<lparr>start = \<lparr>line = 0, character = 0\<rparr>, endp = \<lparr>line = 0, character = 7\<rparr>\<rparr>,
                       newText = ''x{c d}''\<rparr>])"
    by code_simp
  have s: "getSourceByUri squeezeContext (squeezeRegistry squeezeText) outerUri
           = Some \<lparr>snapshot = squeezeText, root = rootFile FormattingOn\<rparr>"
    by code_simp
  have e: "edited squeezeFinalState" by (simp add: squeezeFinalState_def)
  have f: "getSourceByUri squeezeContext (registry squeezeFinalState) outerUri
           = Some \<lparr>snapshot = ''x{c d}'', root = rootFile FormattingOn\<rparr>"
    by code_simp
  show ?thesis
    using overlay_restored [OF r, of outerUri] s e f by simp
qed

text \<open>
  Claim C4, as the specification states it: the result used is that of the first provider
  with a non-empty result. It is not: a provider that returns an empty edit list ends the
  dispatch, and a later provider's edits are not used.
\<close>

theorem dispatch_first_nonempty_counterexample:
  "callPlugin noEditsPlugin exampleOptions (embeddedDocument ''c  d'') (IsRange partRange) None
     = Returns (Some []) \<and>
   callPlugin squeezePlugin exampleOptions (embeddedDocument ''c  d'') (IsRange partRange) None
     = Returns (Some [squeezeEdit]) \<and>
   fst (tryFormat [noEditsPlugin, squeezePlugin] exampleOptions (embeddedDocument ''c  d'')
          (IsRange partRange) None []) = Some [] \<and>
   fst (tryFormat [noEditsPlugin, squeezePlugin] exampleOptions (embeddedDocument ''c  d'')
          (IsRange partRange) None []) \<noteq> Some [squeezeEdit]"
  by code_simp

text \<open>
  Claim C4, amended. For every dispatch over the provider list, the providers are tried in
  registration order; a provider that throws is logged and skipped and never aborts the
  call; the result is that of the first provider whose call returns an edit list, empty or
  not, and is absent when there is none; results are never merged. The console gains the
  errors of the providers tried before that one, in order.
\<close>

theorem dispatch_first_opinion:
  "tryFormat ps options doc formatRange ch warnings =
     (dispatchResult_spec (map (\<lambda>p. callPlugin p options doc formatRange ch) ps),
      warnings @ dispatchLogged_spec (map (\<lambda>p. callPlugin p options doc formatRange ch) ps))"
  by (simp add: tryFormat_def tryFormatLoop_eq)

text \<open>A provider that throws, one that returns the empty list and one that returns an
  edit: the error is logged and the empty list is the result.\<close>

theorem dispatch_first_opinion_witness:
  "tryFormat [throwingPlugin, noEditsPlugin, squeezePlugin] exampleOptions
     (embeddedDocument ''c  d'') (IsRange partRange) None [] = (Some [], [''boom''])"
proof -
  have "dispatchResult_spec (map (\<lambda>p. callPlugin p exampleOptions (embeddedDocument ''c  d'')
            (IsRange partRange) None) [throwingPlugin, noEditsPlugin, squeezePlugin]) = Some []"
    by code_simp
  moreover have "dispatchLogged_spec (map (\<lambda>p. callPlugin p exampleOptions (embeddedDocument ''c  d'')
            (IsRange partRange) None) [throwingPlugin, noEditsPlugin, squeezePlugin]) = [''boom'']"
    by code_simp
  ultimately show ?thesis
    using dispatch_first_opinion [of "[throwingPlugin, noEditsPlugin, squeezePlugin]" exampleOptions
        "embeddedDocument ''c  d''" "IsRange partRange" None "[]"]
    by simp
qed

text \<open>
  Claim C8. Of a batch of edits returned for an embedded region, every edit whose range
  does not translate back to outer coordinates is dropped, every other edit is appended to
  the batch with its translated range and its text, in order; nothing is raised.
\<close>

theorem untranslatable_edits_dropped:
  "pushSourceEdits toSource virtualCodeEdits edits =
     edits @ List.map_filter
       (\<lambda>e. map_option (\<lambda>r. \<lparr>edit_range = r, newText = newText e\<rparr>) (toSource (edit_range e)))
       virtualCodeEdits"
  by (induction virtualCodeEdits arbitrary: edits)
     (auto simp: List.map_filter_simps split: option.splits)

theorem untranslatable_edits_dropped_witness:
  "pushSourceEdits (mapperToSourceRange (reorderMapper [reorderFirst]))
     [insideEdit, outsideEdit, laterEdit] []
   = [\<lparr>edit_range = \<lparr>start = \<lparr>line = 0, character = 1\<rparr>, endp = \<lparr>line = 0, character = 2\<rparr>\<rparr>,
        newText = ''A''\<rparr>,
      \<lparr>edit_range = \<lparr>start = \<lparr>line = 1, character = 0\<rparr>, endp = \<lparr>line = 1, character = 1\<rparr>\<rparr>,
        newText = ''B''\<rparr>]"
proof -
  have "List.map_filter
       (\<lambda>e. map_option (\<lambda>r. \<lparr>edit_range = r, newText = newText e\<rparr>)
              (mapperToSourceRange (reorderMapper [reorderFirst]) (edit_range e)))
       [insideEdit, outsideEdit, laterEdit]
     = [\<lparr>edit_range = \<lparr>start = \<lparr>line = 0, character = 1\<rparr>, endp = \<lparr>line = 0, character = 2\<rparr>\<rparr>,
          newText = ''A''\<rparr>,
        \<lparr>edit_range = \<lparr>start = \<lparr>line = 1, character = 0\<rparr>, endp = \<lparr>line = 1, character = 1\<rparr>\<rparr>,
          newText = ''B''\<rparr>]"
    by code_simp
  then show ?thesis
    using untranslatable_edits_dropped [of "mapperToSourceRange (reorderMapper [reorderFirst])"
        "[insideEdit, outsideEdit, laterEdit]" "[]"]
    by simp
qed

text \<open>
  Claim C9. For every embedding tree the level query returns, for \<open>l = 0, 1, 2, \<dots>\<close>, the
  regions at breadth-first depth \<open>l\<close>, and level 0 is exactly the root. With \<open>D\<close> the
  depth of the tree (the root is at depth 0), the levels \<open>0, \<dots>, D\<close> are not empty and
  level \<open>D + 1\<close> is the first empty one, so the termination signal always comes. The
  loop queries the levels in increasing order from 0 and, when it returns, has halted at
  that first empty level: \<open>D + 1\<close> queries came before the halting one, and the counter
  \<open>level\<close>, incremented at each query, is \<open>D + 2\<close>. The loop is a total function, so
  every run ends; the only other way out of it is the error that applying a batch of
  overlapping edits raises.
\<close>

theorem level_traversal:
  "getEmbeddedFilesByLevel rootVirtualFile l = regionsAtDepth l [rootVirtualFile] \<and>
   getEmbeddedFilesByLevel rootVirtualFile 0 = [rootVirtualFile] \<and>
   (getEmbeddedFilesByLevel rootVirtualFile l = [] \<longleftrightarrow> treeDepth rootVirtualFile < l) \<and>
   (levelLoop ctx options requestRange onTypeParams initialIndentLanguageId rootVirtualFile 0 st
      = Inr (st', lvl) \<longrightarrow> lvl = treeDepth rootVirtualFile + 2)"
proof (intro conjI impI)
  show "getEmbeddedFilesByLevel rootVirtualFile l = regionsAtDepth l [rootVirtualFile]"
    by (rule getEmbeddedFilesByLevel_eq)
  show "getEmbeddedFilesByLevel rootVirtualFile 0 = [rootVirtualFile]"
    by (simp add: getEmbeddedFilesByLevel_eq)
  show "getEmbeddedFilesByLevel rootVirtualFile l = [] \<longleftrightarrow> treeDepth rootVirtualFile < l"
    by (rule level_empty_iff)
  show "lvl = treeDepth rootVirtualFile + 2"
    if "levelLoop ctx options requestRange onTypeParams initialIndentLanguageId rootVirtualFile 0 st
          = Inr (st', lvl)"
    using levelLoop_level [OF that] by simp
qed

text \<open>The first world: a tree of depth 1, and three queries.\<close>

theorem level_traversal_witness:
  "getEmbeddedFilesByLevel (rootFile FormattingOn) 0 = [rootFile FormattingOn] \<and>
   getEmbeddedFilesByLevel (rootFile FormattingOn) 1 = [embeddedFile FormattingOn] \<and>
   getEmbeddedFilesByLevel (rootFile FormattingOn) 2 = [] \<and>
   treeDepth (rootFile FormattingOn) = 1 \<and>
   levelLoop squeezeContext exampleOptions (requestRangeOf (outerDocument squeezeText) None) None
     (initialIndentLanguageIdOf squeezeContext) (rootFile FormattingOn) 0
     (initialState (outerDocument squeezeText) (squeezeRegistry squeezeText))
   = Inr (squeezeFinalState, treeDepth (rootFile FormattingOn) + 2)"
proof -
  have d: "treeDepth (rootFile FormattingOn) = 1"
    by (simp add: rootFile_def embeddedFile_def)
  have l0: "getEmbeddedFilesByLevel (rootFile FormattingOn) 0 = [rootFile FormattingOn]"
    by code_simp
  have l1: "getEmbeddedFilesByLevel (rootFile FormattingOn) 1 = [embeddedFile FormattingOn]"
    by code_simp
  have l2: "getEmbeddedFilesByLevel (rootFile FormattingOn) 2 = []"
    by code_simp
  have "(3::nat) = treeDepth (rootFile FormattingOn) + 2"
    using level_traversal [of "rootFile FormattingOn" 2 squeezeContext exampleOptions
      "requestRangeOf (outerDocument squeezeText) None" None "initialIndentLanguageIdOf squeezeContext"
      "initialState (outerDocument squeezeText) (squeezeRegistry squeezeText)" squeezeFinalState 3]
      squeeze_run
    by blast
  then show ?thesis using squeeze_run d l0 l1 l2 by simp
qed

text \<open>
  Claim C6, as the specification states it: the fallback is used only for whole-document
  range requests. It is not: a requested range from offset 1 to offset 8 of a document of
  length 9 fails direct mapping and is formatted over the fallback range.
\<close>

theorem fallback_range_counterexample:
  "partRange \<noteq> wholeDocumentRange (outerDocument partText) \<and>
   offsetAt (outerDocument partText) (start partRange) = 1 \<and>
   offsetAt (outerDocument partText) (endp partRange) = 8 \<and>
   length (content (outerDocument partText)) = 9 \<and>
   toGeneratedRange partContext partMapper partRange = None \<and>
   fst (virtualCodeRangeOf partContext (outerDocument partText) partRange partMapper)
     = Some \<lparr>start = \<lparr>line = 0, character = 0\<rparr>, endp = \<lparr>line = 0, character = 1\<rparr>\<rparr>"
  by code_simp

text \<open>
  Claim C6, amended. For every range request on an embedded region whose requested range
  fails direct mapping: if and only if there is a mapping and the requested outer range
  starts strictly before the smallest mapping source start and ends strictly after the
  source end of the mapping with the largest source start, the region is formatted over
  the generated range from the generated start of the former to the generated end of the
  latter; otherwise the region is not formatted. This holds for any requested range, the
  whole document or a part of it.
\<close>

theorem fallback_range:
  assumes "documentFormatting embedded \<noteq> FormattingOff"
    and "List.find (\<lambda>(a, f, m). uri (sourceFileDocument m) = uri (document st))
           (getMapsByVirtualFileName (registry st) (fileName embedded)) = Some (a, f, m)"
    and "toGeneratedRange ctx m requestRange = None"
  shows "fst (virtualCodeRangeOf ctx (document st) requestRange m)
           = enclosingFallback_spec (document st) requestRange m \<and>
         processEmbedded ctx options requestRange None embedded (edits, toPatchIndentUris, st) =
           (case enclosingFallback_spec (document st) requestRange m of
              None \<Rightarrow>
                (edits, toPatchIndentUris,
                 storeMapper a f (snd (virtualCodeRangeOf ctx (document st) requestRange m)) st)
            | Some r \<Rightarrow>
                formatOverRange ctx options
                  (snd (virtualCodeRangeOf ctx (document st) requestRange m)) r
                  (edits, toPatchIndentUris,
                   storeMapper a f (snd (virtualCodeRangeOf ctx (document st) requestRange m)) st))"
proof -
  have v: "fst (virtualCodeRangeOf ctx (document st) requestRange m)
           = enclosingFallback_spec (document st) requestRange m"
    using assms(3) by (simp add: virtualCodeRangeOf_def fallbackRange_spec)
  obtain vr m1 where p: "virtualCodeRangeOf ctx (document st) requestRange m = (vr, m1)"
    by (cases "virtualCodeRangeOf ctx (document st) requestRange m") auto
  have pe: "processEmbedded ctx options requestRange None embedded (edits, toPatchIndentUris, st) =
      (case vr of
         None \<Rightarrow> (edits, toPatchIndentUris, storeMapper a f m1 st)
       | Some r \<Rightarrow> formatOverRange ctx options m1 r (edits, toPatchIndentUris, storeMapper a f m1 st))"
    using assms(1,2) p by (simp add: processEmbedded_def split: option.splits)
  have s: "snd (virtualCodeRangeOf ctx (document st) requestRange m) = m1"
    and e: "enclosingFallback_spec (document st) requestRange m = vr"
    using v p by simp_all
  show ?thesis unfolding s e using pe p by simp
qed

theorem fallback_range_witness:
  "fst (virtualCodeRangeOf partContext (outerDocument partText) partRange partMapper)
     = Some \<lparr>start = \<lparr>line = 0, character = 0\<rparr>, endp = \<lparr>line = 0, character = 1\<rparr>\<rparr> \<and>
   processEmbedded partContext exampleOptions partRange None (embeddedFile FormattingOn)
       ([], [], initialState (outerDocument partText) partRegistry)
     = formatOverRange partContext exampleOptions partMapper
         \<lparr>start = \<lparr>line = 0, character = 0\<rparr>, endp = \<lparr>line = 0, character = 1\<rparr>\<rparr>
         ([], [], initialState (outerDocument partText) partRegistry)"
proof -
  let ?st = "initialState (outerDocument partText) partRegistry"
  have d: "document ?st = outerDocument partText" by (simp add: initialState_def)
  have a: "documentFormatting (embeddedFile FormattingOn) \<noteq> FormattingOff"
    by (simp add: embeddedFile_def)
  have b: "List.find (\<lambda>(a, f, m). uri (sourceFileDocument m) = uri (document ?st))
             (getMapsByVirtualFileName (registry ?st) (fileName (embeddedFile FormattingOn)))
           = Some (0, embeddedFile FormattingOn, partMapper)"
    by code_simp
  have c: "toGeneratedRange partContext partMapper partRange = None"
    by code_simp
  have e: "enclosingFallback_spec (outerDocument partText) partRange partMapper
           = Some \<lparr>start = \<lparr>line = 0, character = 0\<rparr>, endp = \<lparr>line = 0, character = 1\<rparr>\<rparr>"
    by code_simp
  have s: "snd (virtualCodeRangeOf partContext (outerDocument partText) partRange partMapper)
           = partMapper"
    by code_simp
  have k: "storeMapper 0 (embeddedFile FormattingOn) partMapper ?st = ?st"
    by code_simp
  note t = fallback_range [OF a b c, of exampleOptions "[]" "[]", unfolded d]
  show ?thesis
    using t by (simp only: e s k option.case)
qed

text \<open>
  Claim C5: the indentation reflow for a touched file consults only the file's mapping set
  against the current outer document. The reflow loop takes every mapper of the file's
  URI instead. In the third world the script file has a mapper against \<open>b.vue\<close> besides
  the one against \<open>a.vue\<close>; a request on \<open>a.vue\<close> re-indents \<open>a.vue\<close> at the offsets of
  the mapping against \<open>b.vue\<close>, and returns nothing when that mapper is not there.
\<close>

theorem reflow_uses_foreign_mapper:
  "uri (sourceFileDocument strayMapper) \<noteq> uri (outerDocument strayText) \<and>
   fst (register strayContext outerUri exampleOptions None None
          (strayRegistry [(embeddedFile FormattingOn, ownMapper),
                          (embeddedFile FormattingOn, strayMapper)]))
     = Returned (Some [\<lparr>edit_range = \<lparr>start = \<lparr>line = 0, character = 0\<rparr>,
                                       endp = \<lparr>line = 2, character = 1\<rparr>\<rparr>,
                        newText = ''{c}'' @ [LF] @ ''  x'' @ [LF] @ ''  y''\<rparr>]) \<and>
   fst (register strayContext outerUri exampleOptions None None
          (strayRegistry [(embeddedFile FormattingOn, ownMapper)]))
     = Returned None"
  by code_simp

text \<open>
  Claim C10. There is a range request in which the requested range fails direct mapping
  and the fallback sorts the mappings of the region in place: in the second world the
  whole-document request returns no edit and applies no batch, and leaves the registry
  with the region's mappings in descending order of source start, the sources being as
  before. The reflow treats another mapping as the first one from then on: over the
  original order it inserts the first newline in front of \<open>a\nb\<close>, over the order left
  behind it emits nothing, and a later request whose range maps directly returns the
  newline edit on the original registry and nothing on the registry left behind. Restoring
  the overlay does not bring the order back either: with a provider whose edit is applied
  and a regeneration that keeps the mapping arrays, the request ends with the original
  snapshot and the descending order.
\<close>

theorem fallback_sort_persists:
  "mapperToGeneratedRange (reorderMapper [reorderFirst, reorderSecond])
     (wholeDocumentRange (outerDocument reorderText)) = None \<and>
   register reorderContext outerUri exampleOptions None None
       (reorderRegistry [reorderFirst, reorderSecond])
     = (Returned None, reorderRegistry [reorderSecond, reorderFirst], []) \<and>
   reorderRegistry [reorderSecond, reorderFirst] \<noteq> reorderRegistry [reorderFirst, reorderSecond] \<and>
   sources (reorderRegistry [reorderSecond, reorderFirst])
     = sources (reorderRegistry [reorderFirst, reorderSecond]) \<and>
   map newText (patchInterpolationIndent (outerDocument reorderText) [reorderFirst, reorderSecond] []
                  (FormattingWith True False)) = [LF # ''a'' @ [LF] @ ''b''] \<and>
   patchInterpolationIndent (outerDocument reorderText) [reorderSecond, reorderFirst] []
     (FormattingWith True False) = [] \<and>
   fst (register reorderContext outerUri exampleOptions (Some directRange) None
          (reorderRegistry [reorderFirst, reorderSecond]))
     = Returned (Some [\<lparr>edit_range = wholeDocumentRange (outerDocument reorderText),
                         newText = ''{'' @ [LF] @ ''a'' @ [LF] @ ''b} {c}''\<rparr>]) \<and>
   fst (register reorderContext outerUri exampleOptions (Some directRange) None
          (reorderRegistry [reorderSecond, reorderFirst]))
     = Returned None \<and>
   register reorderSqueezeContext outerUri exampleOptions None None
       (reorderRegistry [reorderFirst, reorderSecond])
     = (Returned (Some [\<lparr>edit_range = wholeDocumentRange (outerDocument reorderText),
                         newText = ''{ab} {c}''\<rparr>]),
        reorderRegistry [reorderSecond, reorderFirst], [])"
  by code_simp

end
